theory Spec2Isabelle
  imports Main "HOL-Library.AList" "HOL-Library.Sublist"
begin

section \<open>JavaScript values used by the tool handlers\<close>

text \<open>
  The handlers test optional parameters by truthiness (\<^verbatim>\<open>if (params.handler.abort)\<close>,
  \<^verbatim>\<open>if (fulfillOptions.contentType)\<close>, \<^verbatim>\<open>params.timeout || 30000\<close>). An optional
  parameter is an \<open>option\<close>; \<open>None\<close> is \<^verbatim>\<open>undefined\<close>. A boolean is truthy when it is
  \<^verbatim>\<open>true\<close>, a string when it is not empty, a number when it is not zero.
\<close>

definition truthy_bool :: "bool option \<Rightarrow> bool" where
  "truthy_bool b = (b = Some True)"

definition truthy_string :: "string option \<Rightarrow> bool" where
  "truthy_string s = (case s of None \<Rightarrow> False | Some v \<Rightarrow> v \<noteq> [])"

text \<open>
  The value of an optional string that passes an \<^verbatim>\<open>if (...)\<close> test or stands left of
  \<^verbatim>\<open>||\<close>: an absent or empty string does not.
\<close>

definition if_truthy :: "string option \<Rightarrow> string option" where
  "if_truthy s = (case s of None \<Rightarrow> None | Some v \<Rightarrow> if v = [] then None else Some v)"

text \<open>
  A string-keyed JavaScript object (\<^verbatim>\<open>Record<string, string>\<close>) is an association list in
  insertion order; \<^verbatim>\<open>obj[k] = v\<close> is \<^const>\<open>AList.update\<close>, which overwrites an
  existing key in place and appends a new one. JavaScript enumerates keys that are
  array indices before the others; where a statement below is about all keys, it reads
  the list as a map.
\<close>

type_synonym js_record = "(string \<times> string) list"

section \<open>Route handlers (tools/networkInterception.ts, \<^verbatim>\<open>route\<close>)\<close>

text \<open>
  The \<^verbatim>\<open>handler\<close> parameter of \<^verbatim>\<open>browser_route\<close>, as its zod schema declares it. Field
  names carry a prefix because the fulfill options, the continue overrides and the
  request share the names \<^verbatim>\<open>headers\<close>, \<^verbatim>\<open>url\<close> and \<^verbatim>\<open>method\<close>.
\<close>

record fulfill_options =
  ff_status :: "int option"
  ff_body :: "string option"
  ff_headers :: "js_record option"
  ff_contentType :: "string option"

record continue_options =
  co_url :: "string option"
  co_method :: "string option"
  co_headers :: "js_record option"
  co_postData :: "string option"

record route_handler =
  h_abort :: "bool option"
  h_fulfill :: "fulfill_options option"
  h_continue :: "continue_options option"

text \<open>
  What the callback installed by \<^verbatim>\<open>tab.page.route(params.pattern, ...)\<close> calls on the
  driver's \<^verbatim>\<open>Route\<close> object: \<^verbatim>\<open>route.abort()\<close>, \<^verbatim>\<open>route.fulfill(options)\<close>,
  \<^verbatim>\<open>route.continue(overrides)\<close> or \<^verbatim>\<open>route.continue()\<close>.
\<close>

datatype route_call =
    Abort
  | Fulfill fulfill_options
  | Continue "continue_options option"

text \<open>
  Lines 76--83: the options are copied, an absent \<^verbatim>\<open>headers\<close> becomes \<^verbatim>\<open>{}\<close> when
  \<^verbatim>\<open>contentType\<close> is truthy, and a truthy \<^verbatim>\<open>contentType\<close> is stored under
  \<^verbatim>\<open>'content-type'\<close> and deleted from the options. An object is always truthy, so
  \<^verbatim>\<open>!fulfillOptions.headers\<close> holds exactly when the field is absent.
\<close>

definition fulfillOptions :: "fulfill_options \<Rightarrow> fulfill_options" where
  "fulfillOptions f =
     (let o1 = (if truthy_string (ff_contentType f) \<and> ff_headers f = None
                then f\<lparr>ff_headers := Some []\<rparr> else f)
      in case ff_contentType o1 of
           None \<Rightarrow> o1
         | Some ct \<Rightarrow>
             if ct = [] then o1
             else o1\<lparr>ff_headers :=
                       map_option (AList.update ''content-type'' ct) (ff_headers o1),
                     ff_contentType := None\<rparr>)"

text \<open>Lines 72--90: the callback run for each intercepted request.\<close>

definition route_callback :: "route_handler \<Rightarrow> route_call" where
  "route_callback h =
     (if truthy_bool (h_abort h) then Abort
      else case h_fulfill h of
             Some f \<Rightarrow> Fulfill (fulfillOptions f)
           | None \<Rightarrow>
               (case h_continue h of
                  Some c \<Rightarrow> Continue (Some c)
                | None \<Rightarrow> Continue None))"

section \<open>What a handler returns, and what the driver answers\<close>


text \<open>
  A value thrown in JavaScript: an \<^verbatim>\<open>Error\<close> instance with its message, or any other
  value. A promise of the driver settles by resolving or by rejecting with a thrown value.
\<close>

datatype thrown = Error string | Thrown string

datatype 'a settled = Resolved 'a | Rejected thrown

text \<open>\<^verbatim>\<open>s.includes(t)\<close>: \<open>t\<close> occurs in \<open>s\<close> as a contiguous substring.\<close>

fun starts_with :: "string \<Rightarrow> string \<Rightarrow> bool" where
  "starts_with s [] = True"
| "starts_with [] (c # t) = False"
| "starts_with (d # s) (c # t) = (d = c \<and> starts_with s t)"

fun str_includes :: "string \<Rightarrow> string \<Rightarrow> bool" where
  "str_includes [] t = (t = [])"
| "str_includes (d # s) t = (starts_with (d # s) t \<or> str_includes s t)"

text \<open>\<^verbatim>\<open>params.timeout || 30000\<close>\<close>

definition timeout_or_default :: "int option \<Rightarrow> int" where
  "timeout_or_default t = (case t of None \<Rightarrow> 30000 | Some n \<Rightarrow> if n = 0 then 30000 else n)"

text \<open>
  The \<^verbatim>\<open>catch\<close> block every wait tool ends with:
  \<^verbatim>\<open>if (error instanceof Error && error.message.includes('Timeout')) throw new Error(msg); throw error;\<close>
\<close>

definition rethrow_timeout :: "string \<Rightarrow> thrown \<Rightarrow> thrown" where
  "rethrow_timeout msg e =
     (case e of
        Error m \<Rightarrow> if str_includes m ''Timeout'' then Error msg else e
      | Thrown v \<Rightarrow> e)"

section \<open>Waiting for requests and responses (tools/networkInterception.ts)\<close>

record request =
  req_id :: nat
  req_url :: string
  req_method :: string
  req_headers :: js_record
  req_postData :: "string option"
  req_resourceType :: string
  req_isNavigationRequest :: bool

text \<open>
  A driver response. \<^verbatim>\<open>response.text()\<close> may reject, so the body is a settled promise.
\<close>

record response =
  resp_url :: string
  resp_status :: int
  resp_statusText :: string
  resp_headers :: js_record
  resp_text :: "string settled"
  resp_ok :: bool

record wait_params =
  urlPattern :: string
  timeout :: "int option"

text \<open>
  \<^verbatim>\<open>waitForRequest\<close>, lines 168--195. \<open>drv\<close> is \<^verbatim>\<open>tab.page.waitForRequest\<close>: given the
  pattern and the timeout it settles with the request or rejects. The text content
  (a JSON rendering of the request's fields) is the request itself here.
\<close>

definition waitForRequest_action ::
    "(string \<Rightarrow> int \<Rightarrow> request settled) \<Rightarrow> wait_params \<Rightarrow> thrown + request" where
  "waitForRequest_action drv params =
     (case drv (urlPattern params) (timeout_or_default (timeout params)) of
        Resolved request \<Rightarrow> Inr request
      | Rejected e \<Rightarrow>
          Inl (rethrow_timeout
                 (''Timeout waiting for request matching: '' @ urlPattern params) e))"

text \<open>
  \<^verbatim>\<open>waitForResponse\<close>, lines 226--262. The inner \<^verbatim>\<open>try\<close> turns a failure of
  \<^verbatim>\<open>response.text()\<close> into \<^verbatim>\<open>bodyError\<close>.
\<close>

record response_info =
  ri_url :: string
  ri_status :: int
  ri_statusText :: string
  ri_headers :: js_record
  ri_body :: "string option"
  ri_bodyError :: "string option"
  ri_ok :: bool

definition waitForResponse_action ::
    "(string \<Rightarrow> int \<Rightarrow> response settled) \<Rightarrow> wait_params \<Rightarrow> thrown + response_info" where
  "waitForResponse_action drv params =
     (case drv (urlPattern params) (timeout_or_default (timeout params)) of
        Resolved response \<Rightarrow>
          Inr \<lparr>ri_url = resp_url response, ri_status = resp_status response,
               ri_statusText = resp_statusText response, ri_headers = resp_headers response,
               ri_body = (case resp_text response of Resolved b \<Rightarrow> Some b | Rejected e \<Rightarrow> None),
               ri_bodyError =
                 (case resp_text response of
                    Resolved b \<Rightarrow> None
                  | Rejected (Error m) \<Rightarrow> Some m
                  | Rejected (Thrown v) \<Rightarrow> Some ''Failed to get response body''),
               ri_ok = resp_ok response\<rparr>
      | Rejected e \<Rightarrow>
          Inl (rethrow_timeout
                 (''Timeout waiting for response matching: '' @ urlPattern params) e))"

text \<open>
  Modelled from the spec: the driver's \<^verbatim>\<open>page.waitForResponse\<close> is not code of the
  repository; it is taken to behave as a PendingWait of section 3 of the specification,
  which is resolved by the first log event matching the predicate at or before the
  deadline and otherwise rejects with a timeout at the deadline. The events are the
  responses the driver emits after the wait is registered, in emission order, each with
  its arrival time in milliseconds since the registration; \<open>matches\<close> is the driver's
  pattern predicate and \<open>timeoutMessage\<close> the message of its timeout error.
\<close>

definition pendingWait ::
    "(string \<Rightarrow> string \<Rightarrow> bool) \<Rightarrow> string \<Rightarrow> (nat \<times> response) list \<Rightarrow> string \<Rightarrow> int \<Rightarrow>
     response settled" where
  "pendingWait matches timeoutMessage events pattern deadline =
     (case filter (\<lambda>(arrival, r). int arrival \<le> deadline \<and> matches pattern (resp_url r)) events of
        [] \<Rightarrow> Rejected (Error timeoutMessage)
      | (arrival, r) # later \<Rightarrow> Resolved r)"

text \<open>A response with status 200 and an empty body, for the worked examples.\<close>

definition example_response :: "string \<Rightarrow> response" where
  "example_response u =
     \<lparr>resp_url = u, resp_status = 200, resp_statusText = ''OK'', resp_headers = [],
      resp_text = Resolved '''', resp_ok = True\<rparr>"

section \<open>Waiting for selectors, load states and events (tools/advancedWaiting.ts)\<close>

text \<open>
  The module is the second file of \<^verbatim>\<open>src/unnamed/part_004\<close>; the line numbers below are
  those of that file.
\<close>

datatype selector_state = attached | detached | visible | hidden

fun selector_state_name :: "selector_state \<Rightarrow> string" where
  "selector_state_name attached = ''attached''"
| "selector_state_name detached = ''detached''"
| "selector_state_name visible = ''visible''"
| "selector_state_name hidden = ''hidden''"

record selector_params =
  ws_selector :: string
  ws_state :: "selector_state option"
  ws_timeout :: "int option"

text \<open>\<^verbatim>\<open>params.state || 'visible'\<close>\<close>

definition state_or_visible :: "selector_state option \<Rightarrow> selector_state" where
  "state_or_visible s = (case s of None \<Rightarrow> visible | Some v \<Rightarrow> v)"

record selector_found =
  sf_found :: bool
  sf_state :: string
  sf_element :: "string option"

text \<open>
  \<^verbatim>\<open>waitForSelector\<close>, lines 324--365. \<open>drv\<close> is \<^verbatim>\<open>tab.page.waitForSelector\<close>; it
  resolves with an element handle or \<^verbatim>\<open>null\<close>. An element handle is what its
  \<^verbatim>\<open>evaluate\<close> settles with (the element's description), since that call, too, stands
  inside the \<^verbatim>\<open>try\<close>.
\<close>

definition waitForSelector_action ::
    "(string \<Rightarrow> selector_state \<Rightarrow> int \<Rightarrow> (string settled) option settled) \<Rightarrow>
     selector_params \<Rightarrow> thrown + selector_found" where
  "waitForSelector_action drv params =
     (let msg = ''Timeout waiting for selector '' @ [CHR 0x22] @ ws_selector params @
                [CHR 0x22] @ '' to be '' @ selector_state_name (state_or_visible (ws_state params));
          found = \<lparr>sf_found = True,
                   sf_state = selector_state_name (state_or_visible (ws_state params)),
                   sf_element = None\<rparr>
      in case drv (ws_selector params) (state_or_visible (ws_state params))
                  (timeout_or_default (ws_timeout params)) of
           Rejected e \<Rightarrow> Inl (rethrow_timeout msg e)
         | Resolved None \<Rightarrow> Inr found
         | Resolved (Some element) \<Rightarrow>
             if ws_state params \<noteq> Some detached \<and> ws_state params \<noteq> Some hidden then
               (case element of
                  Resolved info \<Rightarrow> Inr (found\<lparr>sf_element := Some info\<rparr>)
                | Rejected e \<Rightarrow> Inl (rethrow_timeout msg e))
             else Inr found)"

datatype load_state = load | domcontentloaded | networkidle

fun load_state_name :: "load_state \<Rightarrow> string" where
  "load_state_name load = ''load''"
| "load_state_name domcontentloaded = ''domcontentloaded''"
| "load_state_name networkidle = ''networkidle''"

record load_state_params =
  wl_state :: "load_state option"
  wl_timeout :: "int option"

text \<open>\<^verbatim>\<open>params.state || 'load'\<close>\<close>

definition state_or_load :: "load_state option \<Rightarrow> load_state" where
  "state_or_load s = (case s of None \<Rightarrow> load | Some v \<Rightarrow> v)"


definition waitForLoadState_action ::
    "(load_state \<Rightarrow> int \<Rightarrow> unit settled) \<Rightarrow> load_state_params \<Rightarrow> thrown + string" where
  "waitForLoadState_action drv params =
     (case drv (state_or_load (wl_state params)) (timeout_or_default (wl_timeout params)) of
        Resolved u \<Rightarrow>
          Inr (''Page reached '' @ load_state_name (state_or_load (wl_state params)) @ '' state'')
      | Rejected e \<Rightarrow>
          Inl (rethrow_timeout
                 (''Timeout waiting for load state: '' @
                  load_state_name (state_or_load (wl_state params))) e))"

record event_params =
  we_event :: string
  we_predicate :: "string option"
  we_timeout :: "int option"

text \<open>
  \<^verbatim>\<open>waitForEvent\<close>, lines 533--601. \<open>drv\<close> is \<^verbatim>\<open>tab.page.waitForEvent\<close> and resolves
  with the data read from the event. Line 538 hands it a predicate only when
  \<^verbatim>\<open>params.predicate\<close> is truthy: an empty predicate is no predicate.
\<close>

definition waitForEvent_action ::
    "(string \<Rightarrow> string option \<Rightarrow> int \<Rightarrow> 'e settled) \<Rightarrow> event_params \<Rightarrow>
     thrown + (string \<times> 'e)" where
  "waitForEvent_action drv params =
     (case drv (we_event params) (if_truthy (we_predicate params))
                (timeout_or_default (we_timeout params)) of
        Resolved eventData \<Rightarrow> Inr (we_event params, eventData)
      | Rejected e \<Rightarrow>
          Inl (rethrow_timeout (''Timeout waiting for event: '' @ we_event params) e))"

section \<open>Web storage (tools/storage.ts)\<close>

datatype storage_type = local | session

record set_storage_params =
  ss_type :: storage_type
  ss_data :: js_record
  ss_clear :: "bool option"

text \<open>
  The page's two Web Storage areas. A \<^verbatim>\<open>Storage\<close> is a list of entries with distinct
  keys, in the order \<^verbatim>\<open>key(i)\<close> enumerates them; the quota is left out. The order is
  the browser's: where \<^verbatim>\<open>setItem\<close> puts a key that is new is given by \<open>place\<close>, a
  parameter, as a position in the list (a position past the end is the end).
\<close>

type_synonym storage = "(string \<times> string) list"

record page_storage =
  localStorage :: storage
  sessionStorage :: storage

definition storage_key :: "storage \<Rightarrow> nat \<Rightarrow> string option" where
  "storage_key s i = (if i < length s then Some (fst (s ! i)) else None)"

definition getItem :: "storage \<Rightarrow> string \<Rightarrow> string option" where
  "getItem s k = map_of s k"

definition setItem ::
    "(string \<Rightarrow> storage \<Rightarrow> nat) \<Rightarrow> string \<Rightarrow> string \<Rightarrow> storage \<Rightarrow> storage" where
  "setItem place k v s =
     (if k \<in> fst ` set s then AList.update k v s
      else take (place k s) s @ (k, v) # drop (place k s) s)"

definition removeItem :: "string \<Rightarrow> storage \<Rightarrow> storage" where
  "removeItem k s = AList.delete k s"

text \<open>\<^verbatim>\<open>type === 'local' ? localStorage : sessionStorage\<close>, to read and to write.\<close>

definition storage_of :: "storage_type \<Rightarrow> page_storage \<Rightarrow> storage" where
  "storage_of ty page = (if ty = local then localStorage page else sessionStorage page)"

definition with_storage :: "storage_type \<Rightarrow> storage \<Rightarrow> page_storage \<Rightarrow> page_storage" where
  "with_storage ty s page =
     (if ty = local then page\<lparr>localStorage := s\<rparr> else page\<lparr>sessionStorage := s\<rparr>)"

text \<open>
  \<^verbatim>\<open>data[key] = value\<close> on the plain object \<^verbatim>\<open>data\<close> of \<^verbatim>\<open>getStorage\<close>: the key
  \<^verbatim>\<open>__proto__\<close> is the prototype accessor, and assigning a string to it stores nothing.
\<close>

definition assign :: "string \<Rightarrow> string \<Rightarrow> js_record \<Rightarrow> js_record" where
  "assign key v data = (if key = ''__proto__'' then data else AList.update key v data)"

text \<open>
  \<^verbatim>\<open>getStorage\<close>, lines 54--67: the loop over \<^verbatim>\<open>i < storage.length\<close>, whose body is
  \<open>getStorage_step\<close>; \<open>storage_entry\<close> is what it does with a key that is not
  \<^verbatim>\<open>null\<close>. A key passes
  \<^verbatim>\<open>if (key)\<close> when it is neither \<^verbatim>\<open>null\<close> nor the empty string; a value is stored when
  it is not \<^verbatim>\<open>null\<close>.
\<close>

definition storage_entry :: "storage \<Rightarrow> string \<Rightarrow> js_record \<Rightarrow> js_record" where
  "storage_entry s key data =
     (if key = [] then data
      else (case getItem s key of
              None \<Rightarrow> data
            | Some v \<Rightarrow> assign key v data))"

definition getStorage_step :: "storage \<Rightarrow> nat \<Rightarrow> js_record \<Rightarrow> js_record" where
  "getStorage_step s i data =
     (case storage_key s i of
        None \<Rightarrow> data
      | Some key \<Rightarrow> storage_entry s key data)"

definition getStorage :: "storage_type \<Rightarrow> page_storage \<Rightarrow> js_record" where
  "getStorage ty page =
     (let s = storage_of ty page in fold (getStorage_step s) [0..<length s] [])"

text \<open>
  \<^verbatim>\<open>setStorage\<close>, lines 114--122: an optional \<^verbatim>\<open>clear()\<close>, then one \<^verbatim>\<open>setItem\<close> for each
  entry of \<^verbatim>\<open>data\<close> in the order of \<^verbatim>\<open>Object.entries\<close>.
\<close>

definition setStorage ::
    "(string \<Rightarrow> storage \<Rightarrow> nat) \<Rightarrow> set_storage_params \<Rightarrow> page_storage \<Rightarrow> page_storage" where
  "setStorage place params page =
     (let s0 = (if truthy_bool (ss_clear params) then [] else storage_of (ss_type params) page)
      in with_storage (ss_type params)
           (fold (\<lambda>(key, v). setItem place key v) (ss_data params) s0) page)"

datatype clear_type = only storage_type | all

record clear_storage_params =
  cs_type :: "clear_type option"
  cs_keys :: "string list option"

text \<open>
  \<^verbatim>\<open>clearStorage\<close>, lines 152 and 183--217. \<^verbatim>\<open>removeKeys\<close> removes the listed keys that
  are present and counts them; without \<^verbatim>\<open>keys\<close> the chosen areas are cleared and their
  lengths counted. The result is the page with the two counts.
\<close>

definition removeKeys :: "string list \<Rightarrow> storage \<Rightarrow> storage \<times> nat" where
  "removeKeys keys s =
     fold (\<lambda>key (st, count).
             if getItem st key \<noteq> None then (removeItem key st, count + 1) else (st, count))
          keys (s, 0)"

definition clearStorage :: "clear_storage_params \<Rightarrow> page_storage \<Rightarrow> page_storage \<times> nat \<times> nat" where
  "clearStorage params page =
     (let ty = (case cs_type params of None \<Rightarrow> all | Some t \<Rightarrow> t);
          on_local = (ty = only local \<or> ty = all);
          on_session = (ty = only session \<or> ty = all)
      in case cs_keys params of
           Some keys \<Rightarrow>
             (let (l, clearedLocal) =
                    (if on_local then removeKeys keys (localStorage page)
                     else (localStorage page, 0));
                  (s, clearedSession) =
                    (if on_session then removeKeys keys (sessionStorage page)
                     else (sessionStorage page, 0))
              in (\<lparr>localStorage = l, sessionStorage = s\<rparr>, clearedLocal, clearedSession))
         | None \<Rightarrow>
             (\<lparr>localStorage = (if on_local then [] else localStorage page),
               sessionStorage = (if on_session then [] else sessionStorage page)\<rparr>,
              if on_local then length (localStorage page) else 0,
              if on_session then length (sessionStorage page) else 0))"


section \<open>The request log and its filters (tools/networkInterception.ts)\<close>

subsection \<open>Regular expressions\<close>

text \<open>
  \<^verbatim>\<open>getRequests\<close> and \<^verbatim>\<open>getResponses\<close> build their URL test with
  \<^verbatim>\<open>new RegExp(params.filter.url.replace(/\*/g, '.*'))\<close>. The constructor is JavaScript's,
  not the repository's, and so is \<^verbatim>\<open>toUpperCase\<close>: the tools take both as a parameter.
  \<open>RegExp\<close> maps a pattern source to \<open>None\<close> when the constructor throws and to the
  predicate \<^verbatim>\<open>pattern.test\<close> otherwise.
\<close>

type_synonym regexp_engine = "string \<Rightarrow> (string \<Rightarrow> bool) option"

record javascript =
  RegExp :: regexp_engine
  toUpperCase :: "string \<Rightarrow> string"

text \<open>\<^verbatim>\<open>s.replace(/\*/g, '.*')\<close>: every \<^verbatim>\<open>*\<close> becomes \<^verbatim>\<open>.*\<close>.\<close>

definition replace_stars :: "string \<Rightarrow> string" where
  "replace_stars s = concat (map (\<lambda>c. if c = CHR ''*'' then ''.*'' else [c]) s)"

definition url_pattern :: "regexp_engine \<Rightarrow> string \<Rightarrow> (string \<Rightarrow> bool) option" where
  "url_pattern re url = re (replace_stars url)"

text \<open>
  The constructor on the fragment of ECMAScript patterns made of literal characters and
  \<^verbatim>\<open>.\<close>, each with an optional quantifier \<^verbatim>\<open>*\<close> or \<^verbatim>\<open>?\<close> and an optional lazy mark
  \<^verbatim>\<open>?\<close> after the quantifier. A pattern with any other syntax character, or with a
  quantifier that has nothing to repeat, is not parsed here: for it \<open>RegExp_fragment\<close>
  gives the answer of \<open>rest\<close>, the constructor on all other sources, which stays a
  parameter. Strings are lists of 8-bit characters, so the line terminators that
  \<^verbatim>\<open>.\<close> refuses are line feed and carriage return.
\<close>

datatype rx_atom = Lit char | AnyChar

datatype rx_quant = Once | Star | Opt

type_synonym regexp = "(rx_atom \<times> rx_quant) list"

datatype rx_mode = AtomNext | QuantNext | LazyNext

definition rx_special :: "char \<Rightarrow> bool" where
  "rx_special c =
     (c \<in> set [CHR 0x5C, CHR ''^'', CHR ''$'', CHR ''+'', CHR ''('', CHR '')'', CHR ''['',
               CHR '']'', CHR ''{'', CHR ''}'', CHR ''|''])"

definition rx_item :: "char \<Rightarrow> rx_atom \<times> rx_quant" where
  "rx_item c = (if c = CHR ''.'' then AnyChar else Lit c, Once)"

text \<open>
  The parser reads one character at a time. The terms read so far are kept last first;
  the mode says whether a quantifier (\<open>QuantNext\<close>) or a lazy mark (\<open>LazyNext\<close>) may
  follow.
\<close>

fun rx_step :: "(regexp \<times> rx_mode) option \<Rightarrow> char \<Rightarrow> (regexp \<times> rx_mode) option" where
  "rx_step None c = None"
| "rx_step (Some (acc, mode)) c =
     (if c = CHR ''*'' then
        (case (acc, mode) of
           ((a, q) # rest, QuantNext) \<Rightarrow> Some ((a, Star) # rest, LazyNext)
         | _ \<Rightarrow> None)
      else if c = CHR ''?'' then
        (case (acc, mode) of
           ((a, q) # rest, QuantNext) \<Rightarrow> Some ((a, Opt) # rest, LazyNext)
         | (_, LazyNext) \<Rightarrow> Some (acc, AtomNext)
         | _ \<Rightarrow> None)
      else if rx_special c then None
      else Some (rx_item c # acc, QuantNext))"

definition rx_parse :: "string \<Rightarrow> regexp option" where
  "rx_parse src = map_option (\<lambda>(acc, mode). rev acc) (foldl rx_step (Some ([], AtomNext)) src)"

definition no_break :: "char \<Rightarrow> bool" where
  "no_break d = (d \<noteq> CHR 0x0A \<and> d \<noteq> CHR 0x0D)"

fun atom_ok :: "rx_atom \<Rightarrow> char \<Rightarrow> bool" where
  "atom_ok (Lit c) d = (c = d)"
| "atom_ok AnyChar d = no_break d"

text \<open>\<open>match_here r s\<close>: the pattern matches a prefix of \<open>s\<close>.\<close>

fun match_here :: "regexp \<Rightarrow> string \<Rightarrow> bool" where
  "match_here [] s = True"
| "match_here ((a, Once) # r) [] = False"
| "match_here ((a, Once) # r) (d # s) = (atom_ok a d \<and> match_here r s)"
| "match_here ((a, Opt) # r) [] = match_here r []"
| "match_here ((a, Opt) # r) (d # s) = (match_here r (d # s) \<or> (atom_ok a d \<and> match_here r s))"
| "match_here ((a, Star) # r) [] = match_here r []"
| "match_here ((a, Star) # r) (d # s) =
     (match_here r (d # s) \<or> (atom_ok a d \<and> match_here ((a, Star) # r) s))"

text \<open>\<^verbatim>\<open>pattern.test(s)\<close> without flags: the pattern matches somewhere in \<open>s\<close>.\<close>

fun rx_test :: "regexp \<Rightarrow> string \<Rightarrow> bool" where
  "rx_test r [] = match_here r []"
| "rx_test r (d # s) = (match_here r (d # s) \<or> rx_test r s)"

definition RegExp_fragment :: "regexp_engine \<Rightarrow> regexp_engine" where
  "RegExp_fragment rest src =
     (case rx_parse src of
        Some r \<Rightarrow> Some (rx_test r)
      | None \<Rightarrow> rest src)"

subsection \<open>The log\<close>

text \<open>
  \<^verbatim>\<open>tab.requests()\<close> is a \<^verbatim>\<open>Map<Request, Response | null>\<close> in insertion order: a list
  of entries, a request with the response it has received so far. \<open>req_id\<close> stands
  for the identity of the request object, which is the key of the map.
\<close>

type_synonym request_log = "(request \<times> response option) list"

record request_filter =
  rf_url :: "string option"
  rf_method :: "string option"
  rf_resourceType :: "string option"

text \<open>\<^verbatim>\<open>params.filter?.url\<close> and its siblings.\<close>

definition filter_field :: "'f option \<Rightarrow> ('f \<Rightarrow> 'v option) \<Rightarrow> 'v option" where
  "filter_field flt field = (case flt of None \<Rightarrow> None | Some f \<Rightarrow> field f)"

text \<open>
  Lines 297--312 of \<^verbatim>\<open>getRequests\<close>: the requests left after the three filters. When
  the constructor throws, the action fails with its \<^verbatim>\<open>SyntaxError\<close>, whose message is
  shortened here.
\<close>

definition selectRequests ::
    "javascript \<Rightarrow> request_filter option \<Rightarrow> request_log \<Rightarrow> thrown + request list" where
  "selectRequests js flt allRequests =
     (let requests = map fst allRequests in
      case (case if_truthy (filter_field flt rf_url) of
              None \<Rightarrow> Inr requests
            | Some url \<Rightarrow>
                (case url_pattern (RegExp js) url of
                   None \<Rightarrow> Inl (Error ''Invalid regular expression'')
                 | Some test \<Rightarrow> Inr (filter (\<lambda>r. test (req_url r)) requests))) of
        Inl e \<Rightarrow> Inl e
      | Inr requests1 \<Rightarrow>
          (let requests2 =
                 (case if_truthy (filter_field flt rf_method) of
                    None \<Rightarrow> requests1
                  | Some method \<Rightarrow>
                      filter (\<lambda>r. toUpperCase js (req_method r) = toUpperCase js method)
                        requests1)
           in Inr (case if_truthy (filter_field flt rf_resourceType) of
                     None \<Rightarrow> requests2
                   | Some resourceType \<Rightarrow>
                       filter (\<lambda>r. req_resourceType r = resourceType) requests2)))"

record request_data =
  rd_url :: string
  rd_method :: string
  rd_headers :: js_record
  rd_postData :: "string option"
  rd_resourceType :: string
  rd_response :: "(int \<times> string) option"

text \<open>Lines 314--327: \<^verbatim>\<open>allRequests.get(request)\<close> and the data reported for a request.\<close>

definition requestData :: "request_log \<Rightarrow> request \<Rightarrow> request_data" where
  "requestData allRequests request =
     \<lparr>rd_url = req_url request, rd_method = req_method request,
      rd_headers = req_headers request, rd_postData = req_postData request,
      rd_resourceType = req_resourceType request,
      rd_response =
        (case map_of allRequests request of
           Some (Some response) \<Rightarrow> Some (resp_status response, resp_statusText response)
         | _ \<Rightarrow> None)\<rparr>"

definition getRequests ::
    "javascript \<Rightarrow> request_filter option \<Rightarrow> request_log \<Rightarrow> thrown + request_data list" where
  "getRequests js flt allRequests =
     (case selectRequests js flt allRequests of
        Inl e \<Rightarrow> Inl e
      | Inr requests \<Rightarrow> Inr (map (requestData allRequests) requests))"

record response_filter =
  pf_url :: "string option"
  pf_status :: "int option"
  pf_statusRange :: "(int \<times> int) option"

text \<open>Lines 374--381 of \<^verbatim>\<open>getResponses\<close>: the responses of the log, in order.\<close>

definition responses_of :: "request_log \<Rightarrow> response list" where
  "responses_of allRequests =
     concat (map (\<lambda>(request, response). case response of None \<Rightarrow> [] | Some p \<Rightarrow> [p])
               allRequests)"

text \<open>
  Lines 383--398: the responses left after the URL, status and status range filters. A
  status filter of 0 does not pass \<^verbatim>\<open>if (params.filter?.status)\<close>.
\<close>

definition selectResponses ::
    "javascript \<Rightarrow> response_filter option \<Rightarrow> request_log \<Rightarrow> thrown + response list" where
  "selectResponses js flt allRequests =
     (let responses = responses_of allRequests in
      case (case if_truthy (filter_field flt pf_url) of
              None \<Rightarrow> Inr responses
            | Some url \<Rightarrow>
                (case url_pattern (RegExp js) url of
                   None \<Rightarrow> Inl (Error ''Invalid regular expression'')
                 | Some test \<Rightarrow> Inr (filter (\<lambda>r. test (resp_url r)) responses))) of
        Inl e \<Rightarrow> Inl e
      | Inr responses1 \<Rightarrow>
          (let responses2 =
                 (case filter_field flt pf_status of
                    None \<Rightarrow> responses1
                  | Some status \<Rightarrow>
                      if status = 0 then responses1
                      else filter (\<lambda>r. resp_status r = status) responses1)
           in Inr (case filter_field flt pf_statusRange of
                     None \<Rightarrow> responses2
                   | Some (lo, hi) \<Rightarrow>
                       filter (\<lambda>r. lo \<le> resp_status r \<and> resp_status r \<le> hi) responses2)))"

subsection \<open>The glob syntax the specification describes\<close>

text \<open>
  The specification's pattern syntax, written down to compare the URL filters with:
  \<^verbatim>\<open>*\<close> matches within a path segment (any run of characters other than \<^verbatim>\<open>/\<close>),
  \<^verbatim>\<open>**\<close> matches across segments (any run of characters), every other character
  matches itself. The pattern is taken to cover the whole URL, which the specification
  leaves open.
\<close>

datatype glob_token = GLit char | GStar | GStarStar

fun glob_tokens :: "string \<Rightarrow> glob_token list" where
  "glob_tokens [] = []"
| "glob_tokens [c] = [if c = CHR ''*'' then GStar else GLit c]"
| "glob_tokens (c # d # s) =
     (if c = CHR ''*'' \<and> d = CHR ''*'' then GStarStar # glob_tokens s
      else (if c = CHR ''*'' then GStar else GLit c) # glob_tokens (d # s))"

fun glob_match :: "glob_token list \<Rightarrow> string \<Rightarrow> bool" where
  "glob_match [] s = (s = [])"
| "glob_match (GLit c # g) [] = False"
| "glob_match (GLit c # g) (d # s) = (c = d \<and> glob_match g s)"
| "glob_match (GStar # g) [] = glob_match g []"
| "glob_match (GStar # g) (d # s) =
     (glob_match g (d # s) \<or> (d \<noteq> CHR ''/'' \<and> glob_match (GStar # g) s))"
| "glob_match (GStarStar # g) [] = glob_match g []"
| "glob_match (GStarStar # g) (d # s) = (glob_match g (d # s) \<or> glob_match (GStarStar # g) s)"

definition spec_glob_matches :: "string \<Rightarrow> string \<Rightarrow> bool" where
  "spec_glob_matches pattern url = glob_match (glob_tokens pattern) url"

subsection \<open>Filter clauses\<close>

text \<open>
  The three clauses of a request filter, as predicates on a request. A clause that is
  not supplied (\<open>None\<close>) holds of every request; the URL clause is given by the test
  its pattern compiles to, the method clause compares the upper-cased methods, the
  resource type clause compares exactly. \<open>satisfies\<close> is their conjunction.
\<close>

definition url_clause :: "(string \<Rightarrow> bool) option \<Rightarrow> request \<Rightarrow> bool" where
  "url_clause t r = (case t of None \<Rightarrow> True | Some test \<Rightarrow> test (req_url r))"

definition method_clause :: "(string \<Rightarrow> string) \<Rightarrow> string option \<Rightarrow> request \<Rightarrow> bool" where
  "method_clause upper m r =
     (case m of None \<Rightarrow> True | Some v \<Rightarrow> upper (req_method r) = upper v)"

definition resourceType_clause :: "string option \<Rightarrow> request \<Rightarrow> bool" where
  "resourceType_clause ty r = (case ty of None \<Rightarrow> True | Some v \<Rightarrow> req_resourceType r = v)"

definition satisfies ::
    "(string \<Rightarrow> string) \<Rightarrow> (string \<Rightarrow> bool) option \<Rightarrow> string option \<Rightarrow> string option \<Rightarrow>
     request \<Rightarrow> bool" where
  "satisfies upper t m ty r =
     (url_clause t r \<and> method_clause upper m r \<and> resourceType_clause ty r)"

subsection \<open>Wildcard patterns\<close>

text \<open>
  A character that stands for itself or is \<^verbatim>\<open>.\<close> in a pattern source: no syntax
  character outside the fragment, no \<^verbatim>\<open>*\<close>, no \<^verbatim>\<open>?\<close>. A wildcard pattern is made of
  such characters and of \<^verbatim>\<open>*\<close>.
\<close>

definition rx_plain :: "char \<Rightarrow> bool" where
  "rx_plain c = (\<not> rx_special c \<and> c \<noteq> CHR ''*'' \<and> c \<noteq> CHR ''?'')"

definition wildcard_pattern :: "string \<Rightarrow> bool" where
  "wildcard_pattern p = list_all (\<lambda>c. c = CHR ''*'' \<or> rx_plain c) p"

text \<open>
  What a wildcard pattern stands for, read without regular expressions: \<open>wild p s\<close>
  holds when \<open>s\<close> is \<open>p\<close> with every \<^verbatim>\<open>*\<close> replaced by a run of characters, every
  \<^verbatim>\<open>.\<close> by one character, and every other character kept; the replacing characters are
  any but line breaks, \<^verbatim>\<open>/\<close> included.
\<close>

inductive wild :: "string \<Rightarrow> string \<Rightarrow> bool" where
  wild_Nil: "wild [] []"
| wild_Star: "list_all no_break u \<Longrightarrow> wild p s \<Longrightarrow> wild (CHR ''*'' # p) (u @ s)"
| wild_Dot: "no_break d \<Longrightarrow> wild p s \<Longrightarrow> wild (CHR ''.'' # p) (d # s)"
| wild_Chr: "c \<noteq> CHR ''*'' \<Longrightarrow> c \<noteq> CHR ''.'' \<Longrightarrow> wild p s \<Longrightarrow> wild (c # p) (c # s)"

text \<open>\<open>wild_somewhere p url\<close>: some part of the URL is what the pattern stands for.\<close>

definition wild_somewhere :: "string \<Rightarrow> string \<Rightarrow> bool" where
  "wild_somewhere p url = (\<exists>pre mid post. url = pre @ mid @ post \<and> wild p mid)"

text \<open>The regular expression a wildcard pattern is compiled to.\<close>

definition wildcard_regexp :: "string \<Rightarrow> regexp" where
  "wildcard_regexp p = map (\<lambda>c. if c = CHR ''*'' then (AnyChar, Star) else rx_item c) p"

subsection \<open>Worked examples\<close>

text \<open>A request of a page's fetch, for the worked examples.\<close>

definition example_request :: "nat \<Rightarrow> string \<Rightarrow> string \<Rightarrow> request" where
  "example_request i u m =
     \<lparr>req_id = i, req_url = u, req_method = m, req_headers = [], req_postData = None,
      req_resourceType = ''fetch'', req_isNavigationRequest = False\<rparr>"

text \<open>
  The two builtins for the worked examples, whose patterns and methods are ASCII. The
  upper-casing maps the letters \<^verbatim>\<open>a\<close> to \<^verbatim>\<open>z\<close> and agrees with JavaScript's on ASCII
  strings. The constructor is the fragment, and throws on every other source; the one
  such source in the examples is \<^verbatim>\<open>(\<close>, on which JavaScript's throws as well.
\<close>

definition upper_char :: "char \<Rightarrow> char" where
  "upper_char c =
     (case map_of (zip ''abcdefghijklmnopqrstuvwxyz'' ''ABCDEFGHIJKLMNOPQRSTUVWXYZ'') c of
        None \<Rightarrow> c
      | Some u \<Rightarrow> u)"

definition example_js :: javascript where
  "example_js = \<lparr>RegExp = RegExp_fragment (\<lambda>src. None), toUpperCase = map upper_char\<rparr>"

section \<open>Frames (tools/frameManagement.ts)\<close>






















section \<open>The synchronisation flags of every handler\<close>





record wait_frame_params =
  wf_frameUrl :: "string option"
  wf_frameName :: "string option"
  wf_timeout :: "int option"







section \<open>The tool registry (tools.ts)\<close>

text \<open>
  A tool, as far as the registry is concerned: the name of its schema and the capability
  it is declared with. \<^verbatim>\<open>snapshotTools\<close> concatenates the lists the tool modules
  export; the three below are those of \<^verbatim>\<open>networkInterception.ts\<close>, \<^verbatim>\<open>storage.ts\<close> and
  \<^verbatim>\<open>frameManagement.ts\<close>, in the order of their \<^verbatim>\<open>export default\<close>.
\<close>

record tool =
  tool_name :: string
  tool_capability :: string

definition networkInterception :: "tool list" where
  "networkInterception =
     [\<lparr>tool_name = ''mcp__playwright__browser_route'', tool_capability = ''network''\<rparr>,
      \<lparr>tool_name = ''mcp__playwright__browser_unroute'', tool_capability = ''network''\<rparr>,
      \<lparr>tool_name = ''mcp__playwright__browser_wait_for_request'', tool_capability = ''network''\<rparr>,
      \<lparr>tool_name = ''mcp__playwright__browser_wait_for_response'', tool_capability = ''network''\<rparr>,
      \<lparr>tool_name = ''mcp__playwright__browser_get_requests'', tool_capability = ''network''\<rparr>,
      \<lparr>tool_name = ''mcp__playwright__browser_get_responses'', tool_capability = ''network''\<rparr>]"

definition storage_tools :: "tool list" where
  "storage_tools =
     [\<lparr>tool_name = ''mcp__playwright__browser_get_storage'', tool_capability = ''storage''\<rparr>,
      \<lparr>tool_name = ''mcp__playwright__browser_set_storage'', tool_capability = ''storage''\<rparr>,
      \<lparr>tool_name = ''mcp__playwright__browser_clear_storage'', tool_capability = ''storage''\<rparr>,
      \<lparr>tool_name = ''mcp__playwright__browser_get_cookies'', tool_capability = ''storage''\<rparr>,
      \<lparr>tool_name = ''mcp__playwright__browser_set_cookies'', tool_capability = ''storage''\<rparr>,
      \<lparr>tool_name = ''mcp__playwright__browser_delete_cookies'', tool_capability = ''storage''\<rparr>]"

definition frameManagement :: "tool list" where
  "frameManagement =
     [\<lparr>tool_name = ''mcp__playwright__browser_list_frames'', tool_capability = ''frames''\<rparr>,
      \<lparr>tool_name = ''mcp__playwright__browser_switch_to_frame'', tool_capability = ''frames''\<rparr>,
      \<lparr>tool_name = ''mcp__playwright__browser_switch_to_main_frame'', tool_capability = ''frames''\<rparr>,
      \<lparr>tool_name = ''mcp__playwright__browser_wait_for_frame'', tool_capability = ''frames''\<rparr>,
      \<lparr>tool_name = ''mcp__playwright__browser_frame_evaluate'', tool_capability = ''frames''\<rparr>]"

text \<open>
  Modelled from the spec: the capability filter of the server, which is not in
  \<^verbatim>\<open>tools.ts\<close> (the file holds the tool lists only). Section 4.1 of the specification:
  \<^verbatim>\<open>buildActiveSet(capabilitySet)\<close> returns the subset of descriptors whose
  \<^verbatim>\<open>requiredCapability\<close> is in \<^verbatim>\<open>capabilitySet\<close> or is \<^verbatim>\<open>core\<close>, preserving declaration
  order; this is the list advertised to callers.
\<close>

definition buildActiveSet :: "string set \<Rightarrow> tool list \<Rightarrow> tool list" where
  "buildActiveSet capabilitySet descriptors =
     filter (\<lambda>t. tool_capability t \<in> capabilitySet \<union> {''core''}) descriptors"

text \<open>
  Modelled from the spec: the "list tools" query of section 6, which exposes the names of
  \<^verbatim>\<open>buildActiveSet(capabilitySet)\<close>.
\<close>

definition listTools :: "string set \<Rightarrow> tool list \<Rightarrow> string list" where
  "listTools capabilitySet descriptors = map tool_name (buildActiveSet capabilitySet descriptors)"


section \<open>Theorems\<close>

subsection \<open>Route handlers\<close>

text \<open>
  C10. The decision kinds of a route handler are tried in the fixed order abort,
  fulfill, continue. When \<^verbatim>\<open>abort\<close> is set (true) the request is aborted, whatever
  \<^verbatim>\<open>fulfill\<close> and \<^verbatim>\<open>continue\<close> hold; when \<^verbatim>\<open>abort\<close> is not set (absent or false) and
  \<^verbatim>\<open>fulfill\<close> is given the request is fulfilled, whatever \<^verbatim>\<open>continue\<close> holds; when
  neither is set and \<^verbatim>\<open>continue\<close> is given the request is continued with the given
  overrides; when none of the three is set the request is continued with no overrides.
\<close>

theorem route_callback_priority:
  "(h_abort h = Some True \<longrightarrow> route_callback h = Abort) \<and>
   (h_abort h \<noteq> Some True \<and> h_fulfill h = Some f \<longrightarrow>
      route_callback h = Fulfill (fulfillOptions f)) \<and>
   (h_abort h \<noteq> Some True \<and> h_fulfill h = None \<and> h_continue h = Some c \<longrightarrow>
      route_callback h = Continue (Some c)) \<and>
   (h_abort h \<noteq> Some True \<and> h_fulfill h = None \<and> h_continue h = None \<longrightarrow>
      route_callback h = Continue None)"
  by (simp add: route_callback_def truthy_bool_def)

theorem route_callback_priority_witness:
  "route_callback
     \<lparr>h_abort = Some True,
      h_fulfill = Some \<lparr>ff_status = Some 200, ff_body = None, ff_headers = None,
                         ff_contentType = None\<rparr>,
      h_continue = Some \<lparr>co_url = Some ''http://h/x'', co_method = None, co_headers = None,
                          co_postData = None\<rparr>\<rparr> = Abort \<and>
   route_callback
     \<lparr>h_abort = Some False,
      h_fulfill = Some \<lparr>ff_status = Some 200, ff_body = None, ff_headers = None,
                         ff_contentType = None\<rparr>,
      h_continue = Some \<lparr>co_url = Some ''http://h/x'', co_method = None, co_headers = None,
                          co_postData = None\<rparr>\<rparr>
     = Fulfill \<lparr>ff_status = Some 200, ff_body = None, ff_headers = None,
                ff_contentType = None\<rparr> \<and>
   route_callback
     \<lparr>h_abort = None, h_fulfill = None,
      h_continue = Some \<lparr>co_url = Some ''http://h/x'', co_method = None, co_headers = None,
                          co_postData = None\<rparr>\<rparr>
     = Continue (Some \<lparr>co_url = Some ''http://h/x'', co_method = None, co_headers = None,
                       co_postData = None\<rparr>) \<and>
   route_callback \<lparr>h_abort = None, h_fulfill = None, h_continue = None\<rparr> = Continue None"
proof -
  let ?f = "\<lparr>ff_status = Some 200, ff_body = None, ff_headers = None,
             ff_contentType = None\<rparr>"
  let ?c = "\<lparr>co_url = Some ''http://h/x'', co_method = None, co_headers = None,
             co_postData = None\<rparr>"
  have a: "route_callback \<lparr>h_abort = Some True, h_fulfill = Some ?f, h_continue = Some ?c\<rparr>
             = Abort"
    using route_callback_priority
      [of "\<lparr>h_abort = Some True, h_fulfill = Some ?f, h_continue = Some ?c\<rparr>"]
    by simp
  have b: "route_callback \<lparr>h_abort = Some False, h_fulfill = Some ?f, h_continue = Some ?c\<rparr>
             = Fulfill ?f"
    using route_callback_priority
      [of "\<lparr>h_abort = Some False, h_fulfill = Some ?f, h_continue = Some ?c\<rparr>" ?f]
    by (simp add: fulfillOptions_def truthy_string_def)
  have c: "route_callback \<lparr>h_abort = None, h_fulfill = None, h_continue = Some ?c\<rparr>
             = Continue (Some ?c)"
    using route_callback_priority
      [of "\<lparr>h_abort = None, h_fulfill = None, h_continue = Some ?c\<rparr>" _ ?c]
    by simp
  have d: "route_callback \<lparr>h_abort = None, h_fulfill = None, h_continue = None\<rparr>
             = Continue None"
    using route_callback_priority
      [of "\<lparr>h_abort = None, h_fulfill = None, h_continue = None\<rparr>"]
    by simp
  from a b c d show ?thesis by simp
qed

text \<open>
  C5 (as the claim states it, refuted). A content type given as the empty string is not
  merged: the options reach \<^verbatim>\<open>route.fulfill\<close> with no \<^verbatim>\<open>headers\<close> at all and with
  \<^verbatim>\<open>contentType\<close> still in place.
\<close>

theorem fulfill_empty_contentType_not_merged:
  "route_callback
     \<lparr>h_abort = None,
      h_fulfill = Some \<lparr>ff_status = Some 200, ff_body = Some ''ok'', ff_headers = None,
                         ff_contentType = Some ''''\<rparr>,
      h_continue = None\<rparr>
   = Fulfill \<lparr>ff_status = Some 200, ff_body = Some ''ok'', ff_headers = None,
              ff_contentType = Some ''''\<rparr>"
  by (simp add: route_callback_def truthy_bool_def fulfillOptions_def truthy_string_def)

text \<open>
  C5 (amended). A handler whose \<^verbatim>\<open>abort\<close> is true aborts the request. Otherwise a
  handler with \<^verbatim>\<open>fulfill\<close> calls \<^verbatim>\<open>route.fulfill\<close> with the given status and body; a
  non-empty \<^verbatim>\<open>contentType\<close> is stored in the headers under \<^verbatim>\<open>content-type\<close>, every
  other given header is kept, and \<^verbatim>\<open>contentType\<close> is removed from the options; an
  absent or empty \<^verbatim>\<open>contentType\<close> leaves the options as they were given. Otherwise a
  handler with \<^verbatim>\<open>continue\<close> forwards the request with exactly the given overrides.
\<close>

theorem route_callback_decisions:
  "(truthy_bool (h_abort h) \<longrightarrow> route_callback h = Abort) \<and>
   (\<not> truthy_bool (h_abort h) \<and> h_fulfill h = Some f \<longrightarrow>
      (\<exists>opts. route_callback h = Fulfill opts \<and>
         ff_status opts = ff_status f \<and> ff_body opts = ff_body f \<and>
         (if truthy_string (ff_contentType f)
          then ff_contentType opts = None \<and>
               (\<exists>hs. ff_headers opts = Some hs \<and>
                  map_of hs ''content-type'' = ff_contentType f \<and>
                  (\<forall>k. k \<noteq> ''content-type'' \<longrightarrow>
                     map_of hs k =
                       map_of (case ff_headers f of None \<Rightarrow> [] | Some g \<Rightarrow> g) k))
          else opts = f))) \<and>
   (\<not> truthy_bool (h_abort h) \<and> h_fulfill h = None \<and> h_continue h = Some c \<longrightarrow>
      route_callback h = Continue (Some c))"
  by (auto simp: route_callback_def fulfillOptions_def truthy_string_def update_conv'
           split: option.splits)

theorem route_callback_decisions_witness:
  "route_callback \<lparr>h_abort = Some True, h_fulfill = None, h_continue = None\<rparr> = Abort \<and>
   (\<exists>opts.
      route_callback
        \<lparr>h_abort = None,
         h_fulfill = Some \<lparr>ff_status = Some 200, ff_body = Some ''mocked'',
                            ff_headers = Some [(''x-test'', ''1'')],
                            ff_contentType = Some ''application/json''\<rparr>,
         h_continue = None\<rparr> = Fulfill opts \<and>
      ff_status opts = Some 200 \<and> ff_body opts = Some ''mocked'' \<and>
      ff_contentType opts = None \<and>
      (\<exists>hs. ff_headers opts = Some hs \<and>
         map_of hs ''content-type'' = Some ''application/json'' \<and>
         map_of hs ''x-test'' = Some ''1'')) \<and>
   route_callback
     \<lparr>h_abort = None, h_fulfill = None,
      h_continue = Some \<lparr>co_url = None, co_method = Some ''POST'', co_headers = None,
                          co_postData = Some ''a=1''\<rparr>\<rparr>
     = Continue (Some \<lparr>co_url = None, co_method = Some ''POST'', co_headers = None,
                       co_postData = Some ''a=1''\<rparr>)"
proof -
  let ?f = "\<lparr>ff_status = Some 200, ff_body = Some ''mocked'',
             ff_headers = Some [(''x-test'', ''1'')],
             ff_contentType = Some ''application/json''\<rparr>"
  let ?c = "\<lparr>co_url = None, co_method = Some ''POST'', co_headers = None,
             co_postData = Some ''a=1''\<rparr>"
  have a: "route_callback \<lparr>h_abort = Some True, h_fulfill = None, h_continue = None\<rparr> = Abort"
    using route_callback_decisions
      [of "\<lparr>h_abort = Some True, h_fulfill = None, h_continue = None\<rparr>"]
    by (simp add: truthy_bool_def)
  have c: "route_callback \<lparr>h_abort = None, h_fulfill = None, h_continue = Some ?c\<rparr>
             = Continue (Some ?c)"
    using route_callback_decisions
      [of "\<lparr>h_abort = None, h_fulfill = None, h_continue = Some ?c\<rparr>" _ ?c]
    by (simp add: truthy_bool_def)
  have b: "\<exists>opts.
      route_callback \<lparr>h_abort = None, h_fulfill = Some ?f, h_continue = None\<rparr> = Fulfill opts \<and>
      ff_status opts = Some 200 \<and> ff_body opts = Some ''mocked'' \<and>
      ff_contentType opts = None \<and>
      (\<exists>hs. ff_headers opts = Some hs \<and>
         map_of hs ''content-type'' = Some ''application/json'' \<and>
         map_of hs ''x-test'' = Some ''1'')"
    using route_callback_decisions
      [of "\<lparr>h_abort = None, h_fulfill = Some ?f, h_continue = None\<rparr>" ?f]
    by (auto simp: truthy_bool_def truthy_string_def)
  from a b c show ?thesis by blast
qed

subsection \<open>Synchronisation flags\<close>










subsection \<open>Timeouts of the wait tools\<close>

lemma starts_with_append: "starts_with (t @ s) t"
  by (induction t) simp_all

lemma str_includes_if_starts_with: "starts_with s t \<Longrightarrow> str_includes s t"
  by (cases s; cases t) simp_all

lemma str_includes_append: "str_includes (a @ t @ b) t"
proof (induction a)
  case Nil
  show ?case using str_includes_if_starts_with [OF starts_with_append] by simp
next
  case (Cons c a)
  then show ?case by simp
qed

lemma str_includes_suffix: "str_includes (a @ t) t"
  using str_includes_append [of a t "[]"] by simp

text \<open>
  C8 (as the claim states it, refuted). A request wait for \<^verbatim>\<open>**/api/delayed\<close> with a
  timeout of 5000 ms that the driver times out fails with a message that names the
  pattern and does not contain the timeout.
\<close>

theorem waitForRequest_timeout_message_lacks_timeout:
  "waitForRequest_action (\<lambda>p t. Rejected (Error ''Timeout 5000ms exceeded.''))
     \<lparr>urlPattern = ''**/api/delayed'', timeout = Some 5000\<rparr>
     = Inl (Error ''Timeout waiting for request matching: **/api/delayed'') \<and>
   \<not> str_includes ''Timeout waiting for request matching: **/api/delayed'' ''5000''"
  by (simp add: waitForRequest_action_def rethrow_timeout_def timeout_or_default_def)

text \<open>
  C8 (amended). When the driver's wait rejects with an error whose message contains
  \<^verbatim>\<open>Timeout\<close>, the wait for a request, a response, a selector, a load state or an event
  returns no result and fails with an error whose message is a fixed text followed by
  the pattern, the selector and state, the load state or the event waited on. The
  message is the same for every configured timeout and contains what was waited on.
\<close>

theorem wait_timeout_error:
  assumes "str_includes m ''Timeout''"
  shows
    "(drq (urlPattern p) (timeout_or_default (timeout p)) = Rejected (Error m) \<longrightarrow>
        waitForRequest_action drq p
          = Inl (Error (''Timeout waiting for request matching: '' @ urlPattern p))) \<and>
     (drs (urlPattern p) (timeout_or_default (timeout p)) = Rejected (Error m) \<longrightarrow>
        waitForResponse_action drs p
          = Inl (Error (''Timeout waiting for response matching: '' @ urlPattern p))) \<and>
     (dsel (ws_selector s) (state_or_visible (ws_state s)) (timeout_or_default (ws_timeout s))
          = Rejected (Error m) \<longrightarrow>
        waitForSelector_action dsel s
          = Inl (Error (''Timeout waiting for selector '' @ [CHR 0x22] @ ws_selector s @
                        [CHR 0x22] @ '' to be '' @
                        selector_state_name (state_or_visible (ws_state s))))) \<and>
     (dl (state_or_load (wl_state l)) (timeout_or_default (wl_timeout l)) = Rejected (Error m) \<longrightarrow>
        waitForLoadState_action dl l
          = Inl (Error (''Timeout waiting for load state: '' @
                        load_state_name (state_or_load (wl_state l))))) \<and>
     (dev (we_event e) (if_truthy (we_predicate e)) (timeout_or_default (we_timeout e))
          = Rejected (Error m) \<longrightarrow>
        waitForEvent_action dev e
          = Inl (Error (''Timeout waiting for event: '' @ we_event e))) \<and>
     str_includes (''Timeout waiting for request matching: '' @ urlPattern p) (urlPattern p) \<and>
     str_includes (''Timeout waiting for response matching: '' @ urlPattern p) (urlPattern p) \<and>
     str_includes (''Timeout waiting for selector '' @ [CHR 0x22] @ ws_selector s @
                   [CHR 0x22] @ '' to be '' @
                   selector_state_name (state_or_visible (ws_state s))) (ws_selector s) \<and>
     str_includes (''Timeout waiting for event: '' @ we_event e) (we_event e)"
proof -
  have q: "drq (urlPattern p) (timeout_or_default (timeout p)) = Rejected (Error m) \<longrightarrow>
        waitForRequest_action drq p
          = Inl (Error (''Timeout waiting for request matching: '' @ urlPattern p))"
    using assms by (simp add: waitForRequest_action_def rethrow_timeout_def)
  have r: "drs (urlPattern p) (timeout_or_default (timeout p)) = Rejected (Error m) \<longrightarrow>
        waitForResponse_action drs p
          = Inl (Error (''Timeout waiting for response matching: '' @ urlPattern p))"
    using assms by (simp add: waitForResponse_action_def rethrow_timeout_def)
  have sl: "dsel (ws_selector s) (state_or_visible (ws_state s)) (timeout_or_default (ws_timeout s))
          = Rejected (Error m) \<longrightarrow>
        waitForSelector_action dsel s
          = Inl (Error (''Timeout waiting for selector '' @ [CHR 0x22] @ ws_selector s @
                        [CHR 0x22] @ '' to be '' @
                        selector_state_name (state_or_visible (ws_state s))))"
    using assms by (simp add: waitForSelector_action_def rethrow_timeout_def Let_def)
  have ld: "dl (state_or_load (wl_state l)) (timeout_or_default (wl_timeout l)) = Rejected (Error m) \<longrightarrow>
        waitForLoadState_action dl l
          = Inl (Error (''Timeout waiting for load state: '' @
                        load_state_name (state_or_load (wl_state l))))"
    using assms by (simp add: waitForLoadState_action_def rethrow_timeout_def)
  have ev: "dev (we_event e) (if_truthy (we_predicate e)) (timeout_or_default (we_timeout e))
          = Rejected (Error m) \<longrightarrow>
        waitForEvent_action dev e
          = Inl (Error (''Timeout waiting for event: '' @ we_event e))"
    using assms by (simp add: waitForEvent_action_def rethrow_timeout_def)
  have i1: "str_includes (''Timeout waiting for request matching: '' @ urlPattern p) (urlPattern p)"
    by (rule str_includes_suffix)
  have i2: "str_includes (''Timeout waiting for response matching: '' @ urlPattern p) (urlPattern p)"
    by (rule str_includes_suffix)
  have i3: "str_includes (''Timeout waiting for selector '' @ [CHR 0x22] @ ws_selector s @
                   [CHR 0x22] @ '' to be '' @
                   selector_state_name (state_or_visible (ws_state s))) (ws_selector s)"
    using str_includes_append
      [of "''Timeout waiting for selector '' @ [CHR 0x22]" "ws_selector s"
          "[CHR 0x22] @ '' to be '' @ selector_state_name (state_or_visible (ws_state s))"]
    by simp
  have i4: "str_includes (''Timeout waiting for event: '' @ we_event e) (we_event e)"
    by (rule str_includes_suffix)
  from q r sl ld ev i1 i2 i3 i4 show ?thesis by blast
qed

theorem wait_timeout_error_witness:
  "str_includes ''Timeout 5000ms exceeded.'' ''Timeout'' \<and>
   waitForRequest_action (\<lambda>p t. Rejected (Error ''Timeout 5000ms exceeded.''))
     \<lparr>urlPattern = ''**/x'', timeout = Some 5000\<rparr>
     = Inl (Error ''Timeout waiting for request matching: **/x'') \<and>
   waitForResponse_action (\<lambda>p t. Rejected (Error ''Timeout 5000ms exceeded.''))
     \<lparr>urlPattern = ''**/x'', timeout = Some 5000\<rparr>
     = Inl (Error ''Timeout waiting for response matching: **/x'') \<and>
   waitForSelector_action (\<lambda>p st t. Rejected (Error ''Timeout 5000ms exceeded.''))
     \<lparr>ws_selector = ''#go'', ws_state = None, ws_timeout = Some 5000\<rparr>
     = Inl (Error (''Timeout waiting for selector '' @ [CHR 0x22] @ ''#go'' @ [CHR 0x22] @
                   '' to be visible'')) \<and>
   waitForLoadState_action (\<lambda>st t. Rejected (Error ''Timeout 5000ms exceeded.''))
     \<lparr>wl_state = Some networkidle, wl_timeout = Some 5000\<rparr>
     = Inl (Error ''Timeout waiting for load state: networkidle'') \<and>
   waitForEvent_action
     (\<lambda>ev pr t. (Rejected (Error ''Timeout 5000ms exceeded.'') :: unit settled))
     \<lparr>we_event = ''popup'', we_predicate = None, we_timeout = Some 5000\<rparr>
     = Inl (Error ''Timeout waiting for event: popup'')"
proof -
  have h: "str_includes ''Timeout 5000ms exceeded.'' ''Timeout''" by simp
  show ?thesis
    using h
      wait_timeout_error [OF h,
        of "\<lambda>p t. Rejected (Error ''Timeout 5000ms exceeded.'')"
           "\<lparr>urlPattern = ''**/x'', timeout = Some 5000\<rparr>"
           "\<lambda>p t. Rejected (Error ''Timeout 5000ms exceeded.'')"
           "\<lambda>p st t. Rejected (Error ''Timeout 5000ms exceeded.'')"
           "\<lparr>ws_selector = ''#go'', ws_state = None, ws_timeout = Some 5000\<rparr>"
           "\<lambda>st t. Rejected (Error ''Timeout 5000ms exceeded.'')"
           "\<lparr>wl_state = Some networkidle, wl_timeout = Some 5000\<rparr>"
           "\<lambda>ev pr t. (Rejected (Error ''Timeout 5000ms exceeded.'') :: unit settled)"
           "\<lparr>we_event = ''popup'', we_predicate = None, we_timeout = Some 5000\<rparr>"]
    by (simp add: state_or_visible_def state_or_load_def if_truthy_def)
qed

subsection \<open>Waiting for a response\<close>

lemma filter_first:
  assumes "P x" and "\<forall>y \<in> set pre. \<not> P y"
  shows "filter P (pre @ x # post) = x # filter P post"
  using assms by (induction pre) simp_all

lemma pendingWait_first:
  assumes "int arrival \<le> deadline" and "matches pattern (resp_url r)"
    and "\<forall>(a, q) \<in> set pre. \<not> (int a \<le> deadline \<and> matches pattern (resp_url q))"
  shows "pendingWait matches msg (pre @ (arrival, r) # post) pattern deadline = Resolved r"
proof -
  let ?P = "\<lambda>(a, q). int a \<le> deadline \<and> matches pattern (resp_url q)"
  have "filter ?P (pre @ (arrival, r) # post) = (arrival, r) # filter ?P post"
    using assms by (intro filter_first) auto
  then show ?thesis by (simp add: pendingWait_def)
qed

lemma pendingWait_none:
  assumes "\<forall>(a, q) \<in> set events. \<not> (int a \<le> deadline \<and> matches pattern (resp_url q))"
  shows "pendingWait matches msg events pattern deadline = Rejected (Error msg)"
proof -
  have "filter (\<lambda>(a, q). int a \<le> deadline \<and> matches pattern (resp_url q)) events = []"
    using assms by (auto simp: filter_empty_conv)
  then show ?thesis by (simp add: pendingWait_def)
qed

lemma pendingWait_late:
  assumes "\<forall>(a, q) \<in> set late. deadline < int a"
  shows "pendingWait matches msg (events @ late) pattern deadline
           = pendingWait matches msg events pattern deadline"
proof -
  have "filter (\<lambda>(a, q). int a \<le> deadline \<and> matches pattern (resp_url q)) late = []"
    using assms by (auto simp: filter_empty_conv)
  then show ?thesis by (simp add: pendingWait_def)
qed

text \<open>
  C3 (as the claim states it, refuted). A wait for \<^verbatim>\<open>**/x\<close> is called with a timeout of
  0 ms and the one matching response arrives 5 ms later. The wait the claim describes
  has timed out by then and the response must not resolve it; the tool hands the driver
  a timeout of 30000 ms instead of 0, and the wait resolves with that response.
\<close>

theorem waitForResponse_zero_timeout_waits:
  "pendingWait spec_glob_matches ''Timeout 0ms exceeded''
     [(5, example_response ''http://h/x'')] ''**/x'' 0
     = Rejected (Error ''Timeout 0ms exceeded'') \<and>
   waitForResponse_action
     (pendingWait spec_glob_matches ''Timeout 0ms exceeded'' [(5, example_response ''http://h/x'')])
     \<lparr>urlPattern = ''**/x'', timeout = Some 0\<rparr>
     = Inr \<lparr>ri_url = ''http://h/x'', ri_status = 200, ri_statusText = ''OK'', ri_headers = [],
            ri_body = Some '''', ri_bodyError = None, ri_ok = True\<rparr>"
  by (simp add: pendingWait_def waitForResponse_action_def timeout_or_default_def
        spec_glob_matches_def example_response_def)

text \<open>
  C3 (amended). \<^verbatim>\<open>waitForResponse\<close> hands the driver the pattern and the effective
  timeout, which is the given timeout, or 30000 ms when none or 0 is given. With a
  driver that behaves as a PendingWait of the specification: the wait resolves with the
  URL, status, status text, headers and ok flag of the first emitted response that
  matches the pattern and arrives within the effective timeout; if no matching response
  arrives within the effective timeout and the message of the driver's timeout error
  contains \<^verbatim>\<open>Timeout\<close>, the wait fails with an \<^verbatim>\<open>Error\<close> whose message is
  \<^verbatim>\<open>Timeout waiting for response matching: \<close> followed by the pattern; and responses
  that arrive after the effective timeout never change the outcome.
\<close>

theorem waitForResponse_first_match_in_time:
  "(timeout p = None \<or> timeout p = Some 0 \<longrightarrow> timeout_or_default (timeout p) = 30000) \<and>
   (timeout p = Some n \<and> n \<noteq> 0 \<longrightarrow> timeout_or_default (timeout p) = n) \<and>
   (events = pre @ (arrival, r) # post \<and>
    int arrival \<le> timeout_or_default (timeout p) \<and> matches (urlPattern p) (resp_url r) \<and>
    (\<forall>(a, q) \<in> set pre. \<not> (int a \<le> timeout_or_default (timeout p) \<and>
                             matches (urlPattern p) (resp_url q))) \<longrightarrow>
      (\<exists>info. waitForResponse_action (pendingWait matches msg events) p = Inr info \<and>
              ri_url info = resp_url r \<and> ri_status info = resp_status r \<and>
              ri_statusText info = resp_statusText r \<and> ri_headers info = resp_headers r \<and>
              ri_ok info = resp_ok r)) \<and>
   (str_includes msg ''Timeout'' \<and>
    (\<forall>(a, q) \<in> set events. \<not> (int a \<le> timeout_or_default (timeout p) \<and>
                                matches (urlPattern p) (resp_url q))) \<longrightarrow>
      waitForResponse_action (pendingWait matches msg events) p
        = Inl (Error (''Timeout waiting for response matching: '' @ urlPattern p))) \<and>
   ((\<forall>(a, q) \<in> set late. timeout_or_default (timeout p) < int a) \<longrightarrow>
      waitForResponse_action (pendingWait matches msg (events @ late)) p
        = waitForResponse_action (pendingWait matches msg events) p)"
proof -
  let ?d = "timeout_or_default (timeout p)"
  have t1: "timeout p = None \<or> timeout p = Some 0 \<longrightarrow> ?d = 30000"
    by (auto simp: timeout_or_default_def)
  have t2: "timeout p = Some n \<and> n \<noteq> 0 \<longrightarrow> ?d = n"
    by (simp add: timeout_or_default_def)
  have a: "events = pre @ (arrival, r) # post \<and>
      int arrival \<le> ?d \<and> matches (urlPattern p) (resp_url r) \<and>
      (\<forall>(a, q) \<in> set pre. \<not> (int a \<le> ?d \<and> matches (urlPattern p) (resp_url q))) \<longrightarrow>
      (\<exists>info. waitForResponse_action (pendingWait matches msg events) p = Inr info \<and>
              ri_url info = resp_url r \<and> ri_status info = resp_status r \<and>
              ri_statusText info = resp_statusText r \<and> ri_headers info = resp_headers r \<and>
              ri_ok info = resp_ok r)"
  proof (intro impI, elim conjE)
    assume e: "events = pre @ (arrival, r) # post" and i: "int arrival \<le> ?d"
      and m: "matches (urlPattern p) (resp_url r)"
      and n: "\<forall>(a, q) \<in> set pre. \<not> (int a \<le> ?d \<and> matches (urlPattern p) (resp_url q))"
    have "pendingWait matches msg events (urlPattern p) ?d = Resolved r"
      unfolding e
      using i m n
      by (rule pendingWait_first
            [where deadline = "timeout_or_default (timeout p)" and matches = matches
               and pattern = "urlPattern p"])
    then show "\<exists>info. waitForResponse_action (pendingWait matches msg events) p = Inr info \<and>
              ri_url info = resp_url r \<and> ri_status info = resp_status r \<and>
              ri_statusText info = resp_statusText r \<and> ri_headers info = resp_headers r \<and>
              ri_ok info = resp_ok r"
      by (simp add: waitForResponse_action_def)
  qed
  have b: "str_includes msg ''Timeout'' \<and>
      (\<forall>(a, q) \<in> set events. \<not> (int a \<le> ?d \<and> matches (urlPattern p) (resp_url q))) \<longrightarrow>
      waitForResponse_action (pendingWait matches msg events) p
        = Inl (Error (''Timeout waiting for response matching: '' @ urlPattern p))"
  proof (intro impI, elim conjE)
    assume s: "str_includes msg ''Timeout''"
      and n: "\<forall>(a, q) \<in> set events. \<not> (int a \<le> ?d \<and> matches (urlPattern p) (resp_url q))"
    have "pendingWait matches msg events (urlPattern p) ?d = Rejected (Error msg)"
      using n
      by (rule pendingWait_none
            [where deadline = "timeout_or_default (timeout p)" and matches = matches
               and pattern = "urlPattern p"])
    then show "waitForResponse_action (pendingWait matches msg events) p
        = Inl (Error (''Timeout waiting for response matching: '' @ urlPattern p))"
      using s by (simp add: waitForResponse_action_def rethrow_timeout_def)
  qed
  have c: "(\<forall>(a, q) \<in> set late. ?d < int a) \<longrightarrow>
      waitForResponse_action (pendingWait matches msg (events @ late)) p
        = waitForResponse_action (pendingWait matches msg events) p"
    by (simp add: waitForResponse_action_def pendingWait_late)
  from t1 t2 a b c show ?thesis by blast
qed

theorem waitForResponse_first_match_in_time_witness:
  "(\<exists>info. waitForResponse_action
             (pendingWait spec_glob_matches ''Timeout 5000ms exceeded''
                [(10, example_response ''http://h/y''), (20, example_response ''http://h/x''),
                 (30, example_response ''http://h/a/x'')])
             \<lparr>urlPattern = ''**/x'', timeout = Some 5000\<rparr> = Inr info \<and>
           ri_url info = ''http://h/x'' \<and> ri_status info = 200 \<and> ri_ok info) \<and>
   waitForResponse_action
     (pendingWait spec_glob_matches ''Timeout 5000ms exceeded''
        [(10, example_response ''http://h/y''), (6000, example_response ''http://h/x'')])
     \<lparr>urlPattern = ''**/x'', timeout = Some 5000\<rparr>
     = Inl (Error ''Timeout waiting for response matching: **/x'') \<and>
   timeout_or_default (timeout \<lparr>urlPattern = ''**/x'', timeout = None\<rparr>) = 30000"
proof -
  let ?p = "\<lparr>urlPattern = ''**/x'', timeout = Some 5000\<rparr>"
  let ?m = "''Timeout 5000ms exceeded''"
  let ?pre = "[(10 :: nat, example_response ''http://h/y'')]"
  let ?post = "[(30 :: nat, example_response ''http://h/a/x'')]"
  let ?e1 = "[(10 :: nat, example_response ''http://h/y''), (20, example_response ''http://h/x''),
              (30, example_response ''http://h/a/x'')]"
  let ?late = "[(6000 :: nat, example_response ''http://h/x'')]"
  have y: "\<not> spec_glob_matches ''**/x'' ''http://h/y''"
    by (simp add: spec_glob_matches_def)
  have x: "spec_glob_matches ''**/x'' ''http://h/x''"
    by (simp add: spec_glob_matches_def)
  have s: "str_includes ?m ''Timeout''" by simp
  have h1: "?e1 = ?pre @ (20, example_response ''http://h/x'') # ?post \<and>
            int 20 \<le> timeout_or_default (timeout ?p) \<and>
            spec_glob_matches (urlPattern ?p) (resp_url (example_response ''http://h/x'')) \<and>
            (\<forall>(a, q) \<in> set ?pre. \<not> (int a \<le> timeout_or_default (timeout ?p) \<and>
                                      spec_glob_matches (urlPattern ?p) (resp_url q)))"
    using x y by (simp add: timeout_or_default_def example_response_def)
  have h2: "str_includes ?m ''Timeout'' \<and>
            (\<forall>(a, q) \<in> set ?pre. \<not> (int a \<le> timeout_or_default (timeout ?p) \<and>
                                      spec_glob_matches (urlPattern ?p) (resp_url q)))"
    using y by (simp add: timeout_or_default_def example_response_def)
  have h3: "\<forall>(a, q) \<in> set ?late. timeout_or_default (timeout ?p) < int a"
    by (simp add: timeout_or_default_def)
  note inst = waitForResponse_first_match_in_time
      [where p = ?p and events = ?e1 and pre = ?pre and arrival = 20
         and r = "example_response ''http://h/x''" and post = ?post
         and matches = spec_glob_matches and msg = ?m]
  from inst h1 obtain info where
      i: "waitForResponse_action (pendingWait spec_glob_matches ?m ?e1) ?p = Inr info"
         "ri_url info = resp_url (example_response ''http://h/x'')"
         "ri_status info = resp_status (example_response ''http://h/x'')"
         "ri_ok info = resp_ok (example_response ''http://h/x'')"
    by blast
  then have 1: "\<exists>info. waitForResponse_action (pendingWait spec_glob_matches ?m ?e1) ?p = Inr info \<and>
                  ri_url info = ''http://h/x'' \<and> ri_status info = 200 \<and> ri_ok info"
    by (simp add: example_response_def)
  note inst2 = waitForResponse_first_match_in_time
      [where p = ?p and events = ?pre and late = ?late and matches = spec_glob_matches
         and msg = ?m]
  from inst2 h2 have 2: "waitForResponse_action (pendingWait spec_glob_matches ?m ?pre) ?p
             = Inl (Error (''Timeout waiting for response matching: '' @ urlPattern ?p))"
    by blast
  from inst2 h3 have 3: "waitForResponse_action (pendingWait spec_glob_matches ?m (?pre @ ?late)) ?p
             = waitForResponse_action (pendingWait spec_glob_matches ?m ?pre) ?p"
    by blast
  have 4: "timeout_or_default (timeout \<lparr>urlPattern = ''**/x'', timeout = None\<rparr>) = 30000"
    using waitForResponse_first_match_in_time
        [where p = "\<lparr>urlPattern = ''**/x'', timeout = None\<rparr>"]
    by simp
  from 1 2 3 4 show ?thesis by simp
qed

subsection \<open>Filtering the request log\<close>

lemma filter_clauses:
  "(case ty of
      None \<Rightarrow>
        (case m of
           None \<Rightarrow> xs
         | Some v \<Rightarrow> filter (\<lambda>r. upper (req_method r) = upper v) xs)
    | Some w \<Rightarrow>
        filter (\<lambda>r. req_resourceType r = w)
          (case m of
             None \<Rightarrow> xs
           | Some v \<Rightarrow> filter (\<lambda>r. upper (req_method r) = upper v) xs))
   = filter (\<lambda>r. method_clause upper m r \<and> resourceType_clause ty r) xs"
  by (cases ty; cases m) (auto simp: method_clause_def resourceType_clause_def intro: filter_cong)

lemma satisfies_None:
  "satisfies upper None m ty = (\<lambda>r. method_clause upper m r \<and> resourceType_clause ty r)"
  by (simp add: fun_eq_iff satisfies_def url_clause_def)

lemma satisfies_Some:
  "satisfies upper (Some test) m ty
     = (\<lambda>r. test (req_url r) \<and> method_clause upper m r \<and> resourceType_clause ty r)"
  by (simp add: fun_eq_iff satisfies_def url_clause_def)

lemma selectRequests_no_url:
  "if_truthy (filter_field flt rf_url) = None \<Longrightarrow>
   selectRequests js flt log
     = Inr (filter (satisfies (toUpperCase js) None (if_truthy (filter_field flt rf_method))
                      (if_truthy (filter_field flt rf_resourceType))) (map fst log))"
  by (simp add: selectRequests_def filter_clauses satisfies_None)

lemma selectRequests_url:
  "if_truthy (filter_field flt rf_url) = Some url \<Longrightarrow>
   url_pattern (RegExp js) url = Some test \<Longrightarrow>
   selectRequests js flt log
     = Inr (filter (satisfies (toUpperCase js) (Some test)
                      (if_truthy (filter_field flt rf_method))
                      (if_truthy (filter_field flt rf_resourceType))) (map fst log))"
  by (simp add: selectRequests_def filter_clauses satisfies_Some conj_commute conj_left_commute)

lemma selectRequests_throws:
  "if_truthy (filter_field flt rf_url) = Some url \<Longrightarrow> url_pattern (RegExp js) url = None \<Longrightarrow>
   selectRequests js flt log = Inl (Error ''Invalid regular expression'')"
  by (simp add: selectRequests_def)

lemma selectRequests_subseq:
  assumes "selectRequests js flt log = Inr out"
  shows "subseq out (map fst log)"
proof (cases "if_truthy (filter_field flt rf_url)")
  case None
  from selectRequests_no_url [OF None, of js log] assms show ?thesis by auto
next
  case (Some u)
  note u = Some
  show ?thesis
  proof (cases "url_pattern (RegExp js) u")
    case None
    from selectRequests_throws [OF u None, of log] assms show ?thesis by simp
  next
    case (Some t)
    from selectRequests_url [OF u Some, of log] assms show ?thesis by auto
  qed
qed

text \<open>
  C2 (as the claim states it, refuted). A method clause supplied as the empty string is
  not applied: the one logged request, a \<^verbatim>\<open>GET\<close>, is returned although it does not
  satisfy the clause.
\<close>

theorem getRequests_empty_method_clause_ignored:
  "selectRequests example_js
     (Some \<lparr>rf_url = None, rf_method = Some '''', rf_resourceType = None\<rparr>)
     [(example_request 1 ''http://localhost/api/endpoint1'' ''GET'', None)]
   = Inr [example_request 1 ''http://localhost/api/endpoint1'' ''GET''] \<and>
   \<not> method_clause (toUpperCase example_js) (Some '''')
       (example_request 1 ''http://localhost/api/endpoint1'' ''GET'')"
  by (simp add: selectRequests_def if_truthy_def filter_field_def method_clause_def
        example_js_def example_request_def)

text \<open>
  C2 (amended). For every request log and every filter, \<^verbatim>\<open>getRequests\<close> keeps exactly
  the logged requests that satisfy every clause of the filter that is supplied and not
  the empty string, the clauses composed by logical AND: with no such URL clause the
  method and resource type clauses decide; with a URL clause whose pattern the
  \<^verbatim>\<open>RegExp\<close> constructor accepts, its test decides as well; with a URL clause whose
  pattern the constructor rejects, the call fails. Whenever requests are returned they
  are a subsequence of the log, in arrival order, and the reported data is that of
  these requests, in the same order. This holds whatever \<^verbatim>\<open>RegExp\<close> and
  \<^verbatim>\<open>toUpperCase\<close> compute.
\<close>

theorem getRequests_filter:
  "(if_truthy (filter_field flt rf_url) = None \<longrightarrow>
      selectRequests js flt log
        = Inr (filter (satisfies (toUpperCase js) None (if_truthy (filter_field flt rf_method))
                         (if_truthy (filter_field flt rf_resourceType))) (map fst log))) \<and>
   (if_truthy (filter_field flt rf_url) = Some url \<and> url_pattern (RegExp js) url = Some test \<longrightarrow>
      selectRequests js flt log
        = Inr (filter (satisfies (toUpperCase js) (Some test)
                         (if_truthy (filter_field flt rf_method))
                         (if_truthy (filter_field flt rf_resourceType))) (map fst log))) \<and>
   (if_truthy (filter_field flt rf_url) = Some url \<and> url_pattern (RegExp js) url = None \<longrightarrow>
      selectRequests js flt log = Inl (Error ''Invalid regular expression'')) \<and>
   (selectRequests js flt log = Inr out \<longrightarrow>
      subseq out (map fst log) \<and> getRequests js flt log = Inr (map (requestData log) out))"
  using selectRequests_no_url [of flt js log] selectRequests_url [of flt url js test log]
    selectRequests_throws [of flt url js log] selectRequests_subseq [of js flt log out]
  by (simp add: getRequests_def)

theorem getRequests_filter_witness:
  "selectRequests example_js
     (Some \<lparr>rf_url = Some ''*/api/*'', rf_method = Some ''get'', rf_resourceType = None\<rparr>)
     [(example_request 1 ''http://h/api/e1'' ''GET'', None),
      (example_request 2 ''http://h/other/e'' ''POST'', None),
      (example_request 3 ''http://h/api/e2'' ''GET'', None)]
   = Inr [example_request 1 ''http://h/api/e1'' ''GET'',
          example_request 3 ''http://h/api/e2'' ''GET''] \<and>
   selectRequests example_js
     (Some \<lparr>rf_url = None, rf_method = Some ''POST'', rf_resourceType = None\<rparr>)
     [(example_request 1 ''http://h/api/e1'' ''GET'', None),
      (example_request 2 ''http://h/other/e'' ''POST'', None),
      (example_request 3 ''http://h/api/e2'' ''GET'', None)]
   = Inr [example_request 2 ''http://h/other/e'' ''POST''] \<and>
   subseq [example_request 2 ''http://h/other/e'' ''POST'']
     (map fst [(example_request 1 ''http://h/api/e1'' ''GET'', None :: response option),
               (example_request 2 ''http://h/other/e'' ''POST'', None),
               (example_request 3 ''http://h/api/e2'' ''GET'', None)]) \<and>
   selectRequests example_js
     (Some \<lparr>rf_url = Some ''('', rf_method = None, rf_resourceType = None\<rparr>)
     [(example_request 1 ''http://h/api/e1'' ''GET'', None)]
   = Inl (Error ''Invalid regular expression'')"
proof -
  let ?log = "[(example_request 1 ''http://h/api/e1'' ''GET'', None :: response option),
      (example_request 2 ''http://h/other/e'' ''POST'', None),
      (example_request 3 ''http://h/api/e2'' ''GET'', None)]"
  let ?f1 = "Some \<lparr>rf_url = Some ''*/api/*'', rf_method = Some ''get'', rf_resourceType = None\<rparr>"
  let ?f2 = "Some \<lparr>rf_url = None, rf_method = Some ''POST'', rf_resourceType = None\<rparr>"
  let ?rx = "[(AnyChar, Star), (Lit CHR ''/'', Once), (Lit CHR ''a'', Once), (Lit CHR ''p'', Once),
              (Lit CHR ''i'', Once), (Lit CHR ''/'', Once), (AnyChar, Star)]"
  have p: "url_pattern (RegExp example_js) ''*/api/*'' = Some (rx_test ?rx)"
    by (simp add: example_js_def url_pattern_def replace_stars_def RegExp_fragment_def
          rx_parse_def rx_special_def rx_item_def)
  have 1: "selectRequests example_js ?f1 ?log
            = Inr [example_request 1 ''http://h/api/e1'' ''GET'',
                   example_request 3 ''http://h/api/e2'' ''GET'']"
    using getRequests_filter
        [where flt = ?f1 and url = "''*/api/*''" and js = example_js
           and test = "rx_test ?rx" and log = ?log] p
    by (simp add: if_truthy_def filter_field_def satisfies_def url_clause_def method_clause_def
          resourceType_clause_def example_js_def upper_char_def example_request_def
          no_break_def)
  have 2: "selectRequests example_js ?f2 ?log
            = Inr [example_request 2 ''http://h/other/e'' ''POST'']"
    using getRequests_filter [where flt = ?f2 and js = example_js and log = ?log]
    by (simp add: if_truthy_def filter_field_def satisfies_def url_clause_def method_clause_def
          resourceType_clause_def example_js_def upper_char_def example_request_def)
  have 3: "subseq [example_request 2 ''http://h/other/e'' ''POST''] (map fst ?log)"
    using getRequests_filter
        [where flt = ?f2 and js = example_js and log = ?log
           and out = "[example_request 2 ''http://h/other/e'' ''POST'']"] 2
    by simp
  have 4: "selectRequests example_js
             (Some \<lparr>rf_url = Some ''('', rf_method = None, rf_resourceType = None\<rparr>)
             [(example_request 1 ''http://h/api/e1'' ''GET'', None)]
           = Inl (Error ''Invalid regular expression'')"
    using getRequests_filter
        [where flt = "Some \<lparr>rf_url = Some ''('', rf_method = None, rf_resourceType = None\<rparr>"
           and url = "''(''" and js = example_js
           and log = "[(example_request 1 ''http://h/api/e1'' ''GET'', None)]"]
    by (simp add: if_truthy_def filter_field_def url_pattern_def replace_stars_def
          example_js_def RegExp_fragment_def rx_parse_def rx_special_def)
  from 1 2 3 4 show ?thesis by simp
qed

subsection \<open>What \<^verbatim>\<open>*\<close> matches in a URL filter\<close>

lemma replace_stars_Cons:
  "replace_stars (c # s) = (if c = CHR ''*'' then ''.*'' else [c]) @ replace_stars s"
  by (simp add: replace_stars_def)

lemma rx_step_wildcard:
  "wildcard_pattern p \<Longrightarrow>
   \<exists>m'. foldl rx_step (Some (acc, m)) (replace_stars p)
          = Some (rev (wildcard_regexp p) @ acc, m')"
proof (induction p arbitrary: acc m)
  case Nil
  show ?case by (simp add: replace_stars_def wildcard_regexp_def)
next
  case (Cons c p)
  from Cons.prems have p: "wildcard_pattern p" and c: "c = CHR ''*'' \<or> rx_plain c"
    by (simp_all add: wildcard_pattern_def)
  show ?case
  proof (cases "c = CHR ''*''")
    case True
    have "foldl rx_step (Some (acc, m)) ''.*'' = Some ((AnyChar, Star) # acc, LazyNext)"
      by (simp add: rx_special_def rx_item_def)
    then show ?thesis
      using Cons.IH [OF p, of "(AnyChar, Star) # acc" LazyNext] True
      by (simp add: replace_stars_Cons wildcard_regexp_def)
  next
    case False
    with c have "rx_plain c" by simp
    then have "rx_step (Some (acc, m)) c = Some (rx_item c # acc, QuantNext)"
      by (simp add: rx_plain_def)
    then show ?thesis
      using Cons.IH [OF p, of "rx_item c # acc" QuantNext] False
      by (simp add: replace_stars_Cons wildcard_regexp_def)
  qed
qed

lemma rx_parse_wildcard:
  assumes "wildcard_pattern p"
  shows "rx_parse (replace_stars p) = Some (wildcard_regexp p)"
proof -
  from rx_step_wildcard [OF assms, of "[]" AtomNext]
  obtain m' where "foldl rx_step (Some ([], AtomNext)) (replace_stars p)
                     = Some (rev (wildcard_regexp p), m')"
    by auto
  then show ?thesis by (simp add: rx_parse_def)
qed

lemma url_pattern_wildcard:
  "wildcard_pattern p \<Longrightarrow>
   url_pattern (RegExp_fragment rest) p = Some (rx_test (wildcard_regexp p))"
  by (simp add: url_pattern_def RegExp_fragment_def rx_parse_wildcard)

lemma match_here_star:
  "match_here ((AnyChar, Star) # r) s
     \<longleftrightarrow> (\<exists>u s'. s = u @ s' \<and> list_all no_break u \<and> match_here r s')"
proof (induction s)
  case Nil
  show ?case by simp
next
  case (Cons d s)
  show ?case
  proof
    assume "match_here ((AnyChar, Star) # r) (d # s)"
    then consider "match_here r (d # s)" | "no_break d" "match_here ((AnyChar, Star) # r) s"
      by auto
    then show "\<exists>u s'. d # s = u @ s' \<and> list_all no_break u \<and> match_here r s'"
    proof cases
      case 1
      then have "d # s = [] @ (d # s) \<and> list_all no_break [] \<and> match_here r (d # s)" by simp
      then show ?thesis by blast
    next
      case 2
      with Cons.IH obtain u s' where "s = u @ s'" "list_all no_break u" "match_here r s'"
        by blast
      with 2 have "d # s = (d # u) @ s' \<and> list_all no_break (d # u) \<and> match_here r s'"
        by simp
      then show ?thesis by blast
    qed
  next
    assume "\<exists>u s'. d # s = u @ s' \<and> list_all no_break u \<and> match_here r s'"
    then obtain u s' where e: "d # s = u @ s'" and u: "list_all no_break u"
        and m: "match_here r s'"
      by blast
    show "match_here ((AnyChar, Star) # r) (d # s)"
    proof (cases u)
      case Nil
      with e have "s' = d # s" by simp
      with m show ?thesis by simp
    next
      case (Cons d' u')
      with e u have "d' = d" "s = u' @ s'" "no_break d" "list_all no_break u'" by simp_all
      with m Cons.IH show ?thesis by auto
    qed
  qed
qed

lemma wild_Nil_iff: "wild [] s \<longleftrightarrow> s = []"
proof
  assume "wild [] s"
  then show "s = []" by (cases rule: wild.cases) auto
next
  assume "s = []"
  then show "wild [] s" by (simp add: wild_Nil)
qed

lemma wild_Star_iff:
  "wild (CHR ''*'' # p) s \<longleftrightarrow> (\<exists>u s'. s = u @ s' \<and> list_all no_break u \<and> wild p s')"
proof
  assume "wild (CHR ''*'' # p) s"
  then show "\<exists>u s'. s = u @ s' \<and> list_all no_break u \<and> wild p s'"
    by (cases rule: wild.cases) auto
next
  assume "\<exists>u s'. s = u @ s' \<and> list_all no_break u \<and> wild p s'"
  then show "wild (CHR ''*'' # p) s" by (auto intro: wild_Star)
qed

lemma wild_Dot_iff:
  "wild (CHR ''.'' # p) s \<longleftrightarrow> (\<exists>d s'. s = d # s' \<and> no_break d \<and> wild p s')"
proof
  assume "wild (CHR ''.'' # p) s"
  then show "\<exists>d s'. s = d # s' \<and> no_break d \<and> wild p s'"
    by (cases rule: wild.cases) auto
next
  assume "\<exists>d s'. s = d # s' \<and> no_break d \<and> wild p s'"
  then show "wild (CHR ''.'' # p) s" by (auto intro: wild_Dot)
qed

lemma wild_Chr_iff:
  assumes "c \<noteq> CHR ''*''" "c \<noteq> CHR ''.''"
  shows "wild (c # p) s \<longleftrightarrow> (\<exists>s'. s = c # s' \<and> wild p s')"
proof
  assume "wild (c # p) s"
  then show "\<exists>s'. s = c # s' \<and> wild p s'"
    using assms by (cases rule: wild.cases) auto
next
  assume "\<exists>s'. s = c # s' \<and> wild p s'"
  then show "wild (c # p) s" using assms by (auto intro: wild_Chr)
qed

lemma wildcard_regexp_Cons:
  "wildcard_regexp (c # p)
     = (if c = CHR ''*'' then (AnyChar, Star) else rx_item c) # wildcard_regexp p"
  by (simp add: wildcard_regexp_def)

lemma match_here_wildcard:
  "match_here (wildcard_regexp p) s \<longleftrightarrow> (\<exists>mid post. s = mid @ post \<and> wild p mid)"
proof (induction p arbitrary: s)
  case Nil
  show ?case by (simp add: wildcard_regexp_def wild_Nil_iff)
next
  case (Cons c p)
  have r1: "wildcard_regexp (CHR ''*'' # p) = (AnyChar, Star) # wildcard_regexp p"
    by (simp add: wildcard_regexp_def)
  consider "c = CHR ''*''" | "c = CHR ''.''" | "c \<noteq> CHR ''*''" "c \<noteq> CHR ''.''" by blast
  then show ?case
  proof cases
    case 1
    have "match_here (wildcard_regexp (c # p)) s
            \<longleftrightarrow> (\<exists>u s'. s = u @ s' \<and> list_all no_break u \<and>
                         (\<exists>mid post. s' = mid @ post \<and> wild p mid))"
      unfolding 1 r1 match_here_star Cons.IH by simp
    also have "\<dots> \<longleftrightarrow> (\<exists>mid post. s = mid @ post \<and> wild (c # p) mid)"
      unfolding 1 wild_Star_iff
    proof
      assume "\<exists>u s'. s = u @ s' \<and> list_all no_break u \<and> (\<exists>mid post. s' = mid @ post \<and> wild p mid)"
      then obtain u mid post where "s = (u @ mid) @ post" "list_all no_break u" "wild p mid"
        by auto
      then show "\<exists>mid post. s = mid @ post \<and>
                   (\<exists>u s'. mid = u @ s' \<and> list_all no_break u \<and> wild p s')"
        by blast
    next
      assume "\<exists>mid post. s = mid @ post \<and>
                   (\<exists>u s'. mid = u @ s' \<and> list_all no_break u \<and> wild p s')"
      then obtain u s' post where "s = u @ (s' @ post)" "list_all no_break u" "wild p s'"
        by auto
      then show "\<exists>u s'. s = u @ s' \<and> list_all no_break u \<and>
                   (\<exists>mid post. s' = mid @ post \<and> wild p mid)"
        by blast
    qed
    finally show ?thesis .
  next
    case 2
    show ?thesis
    proof (cases s)
      case Nil
      then show ?thesis using 2 by (simp add: wildcard_regexp_Cons rx_item_def wild_Dot_iff)
    next
      case (Cons d s')
      then show ?thesis
        using 2 Cons.IH [of s'] by (auto simp: wildcard_regexp_Cons rx_item_def wild_Dot_iff Cons_eq_append_conv)
    qed
  next
    case 3
    show ?thesis
    proof (cases s)
      case Nil
      then show ?thesis using 3 by (simp add: wildcard_regexp_Cons rx_item_def wild_Chr_iff)
    next
      case (Cons d s')
      then show ?thesis
        using 3 Cons.IH [of s']
        by (auto simp: wildcard_regexp_Cons rx_item_def wild_Chr_iff Cons_eq_append_conv)
    qed
  qed
qed

lemma rx_test_iff: "rx_test r s \<longleftrightarrow> (\<exists>pre rest. s = pre @ rest \<and> match_here r rest)"
proof (induction s)
  case Nil
  show ?case by simp
next
  case (Cons d s)
  show ?case
  proof
    assume "rx_test r (d # s)"
    then consider "match_here r (d # s)" | "rx_test r s" by auto
    then show "\<exists>pre rest. d # s = pre @ rest \<and> match_here r rest"
    proof cases
      case 1
      then have "d # s = [] @ (d # s) \<and> match_here r (d # s)" by simp
      then show ?thesis by blast
    next
      case 2
      with Cons.IH obtain pre rest where "s = pre @ rest" "match_here r rest" by blast
      then have "d # s = (d # pre) @ rest \<and> match_here r rest" by simp
      then show ?thesis by blast
    qed
  next
    assume "\<exists>pre rest. d # s = pre @ rest \<and> match_here r rest"
    then obtain pre rest where e: "d # s = pre @ rest" and m: "match_here r rest" by blast
    show "rx_test r (d # s)"
    proof (cases pre)
      case Nil
      with e have "rest = d # s" by simp
      with m show ?thesis by simp
    next
      case (Cons d' pre')
      with e have "s = pre' @ rest" by simp
      with m Cons.IH show ?thesis by auto
    qed
  qed
qed

lemma rx_test_wildcard: "rx_test (wildcard_regexp p) url \<longleftrightarrow> wild_somewhere p url"
  unfolding rx_test_iff match_here_wildcard wild_somewhere_def by blast

lemma wild_two_stars: "wild (CHR ''*'' # CHR ''*'' # p) s \<longleftrightarrow> wild (CHR ''*'' # p) s"
proof
  assume "wild (CHR ''*'' # CHR ''*'' # p) s"
  then obtain u v s' where "s = (u @ v) @ s'" "list_all no_break (u @ v)" "wild p s'"
    unfolding wild_Star_iff by auto
  then show "wild (CHR ''*'' # p) s" unfolding wild_Star_iff by blast
next
  assume "wild (CHR ''*'' # p) s"
  then obtain u s' where "s = u @ s'" "list_all no_break u" "wild p s'"
    unfolding wild_Star_iff by auto
  then have "s = u @ ([] @ s') \<and> list_all no_break u \<and> list_all no_break [] \<and> wild p s'" by simp
  then show "wild (CHR ''*'' # CHR ''*'' # p) s" unfolding wild_Star_iff by blast
qed

lemma wild_prefix_cong:
  "(\<And>s. wild x s \<longleftrightarrow> wild y s) \<Longrightarrow> wild (a @ x) s \<longleftrightarrow> wild (a @ y) s"
proof (induction a arbitrary: s)
  case Nil
  then show ?case by simp
next
  case (Cons c a)
  consider "c = CHR ''*''" | "c = CHR ''.''" | "c \<noteq> CHR ''*''" "c \<noteq> CHR ''.''" by blast
  then show ?case
  proof cases
    case 1
    then show ?thesis using Cons.IH [OF Cons.prems] by (simp add: wild_Star_iff)
  next
    case 2
    then show ?thesis using Cons.IH [OF Cons.prems] by (simp add: wild_Dot_iff)
  next
    case 3
    then show ?thesis using Cons.IH [OF Cons.prems] by (simp add: wild_Chr_iff)
  qed
qed

lemma wild_star_star: "wild (a @ ''**'' @ b) s \<longleftrightarrow> wild (a @ ''*'' @ b) s"
  using wild_prefix_cong [of "''**'' @ b" "''*'' @ b" a s] wild_two_stars by simp

lemma wild_star_any: "list_all no_break u \<Longrightarrow> wild ''*'' u"
  using wild_Star [of u "[]" "[]"] wild_Nil by simp

lemma wild_somewhere_star_star:
  "wild_somewhere (a @ ''**'' @ b) url \<longleftrightarrow> wild_somewhere (a @ ''*'' @ b) url"
  unfolding wild_somewhere_def wild_star_star ..

lemma selectRequests_wildcard:
  assumes "wildcard_pattern p" and "p \<noteq> []"
  shows "selectRequests \<lparr>RegExp = RegExp_fragment rest, toUpperCase = up\<rparr>
           (Some \<lparr>rf_url = Some p, rf_method = None, rf_resourceType = None\<rparr>) log
         = Inr (filter (\<lambda>r. wild_somewhere p (req_url r)) (map fst log))"
  using assms(2)
  by (simp add: selectRequests_def if_truthy_def filter_field_def
        url_pattern_wildcard [OF assms(1)] rx_test_wildcard)

lemma selectResponses_wildcard:
  assumes "wildcard_pattern p" and "p \<noteq> []"
  shows "selectResponses \<lparr>RegExp = RegExp_fragment rest, toUpperCase = up\<rparr>
           (Some \<lparr>pf_url = Some p, pf_status = None, pf_statusRange = None\<rparr>) log
         = Inr (filter (\<lambda>r. wild_somewhere p (resp_url r)) (responses_of log))"
  using assms(2)
  by (simp add: selectResponses_def if_truthy_def filter_field_def
        url_pattern_wildcard [OF assms(1)] rx_test_wildcard)

lemma url_pattern_star_star:
  assumes "wildcard_pattern a" and "wildcard_pattern b"
  shows "\<exists>t t'. url_pattern (RegExp_fragment rest) (a @ ''*'' @ b) = Some t \<and>
                url_pattern (RegExp_fragment rest) (a @ ''**'' @ b) = Some t' \<and>
                (\<forall>url. t' url \<longleftrightarrow> t url)"
proof -
  from assms have 1: "wildcard_pattern (a @ ''*'' @ b)" and 2: "wildcard_pattern (a @ ''**'' @ b)"
    by (simp_all add: wildcard_pattern_def)
  have "\<forall>url. rx_test (wildcard_regexp (a @ ''**'' @ b)) url
               \<longleftrightarrow> rx_test (wildcard_regexp (a @ ''*'' @ b)) url"
    unfolding rx_test_wildcard wild_somewhere_star_star by simp
  then show ?thesis
    unfolding url_pattern_wildcard [OF 1] url_pattern_wildcard [OF 2] by blast
qed

text \<open>
  C6 (as the claim states it, refuted). In the URL filter \<^verbatim>\<open>http://h/api/*/list\<close> the
  single \<^verbatim>\<open>*\<close> matches \<^verbatim>\<open>v1/users\<close>, across a \<^verbatim>\<open>/\<close>: \<^verbatim>\<open>getRequests\<close> returns the request
  for \<^verbatim>\<open>http://h/api/v1/users/list\<close>, which the glob syntax of the specification does not
  match.
\<close>

theorem url_filter_star_crosses_slash:
  "selectRequests example_js
     (Some \<lparr>rf_url = Some ''http://h/api/*/list'', rf_method = None, rf_resourceType = None\<rparr>)
     [(example_request 1 ''http://h/api/v1/users/list'' ''GET'', None)]
   = Inr [example_request 1 ''http://h/api/v1/users/list'' ''GET''] \<and>
   \<not> spec_glob_matches ''http://h/api/*/list'' ''http://h/api/v1/users/list''"
  by (simp add: selectRequests_def if_truthy_def filter_field_def url_pattern_def
        replace_stars_def example_js_def RegExp_fragment_def rx_parse_def rx_special_def
        rx_item_def no_break_def example_request_def spec_glob_matches_def)

text \<open>
  C6 (amended). The URL filters of \<^verbatim>\<open>getRequests\<close> and \<^verbatim>\<open>getResponses\<close> are not globs:
  every \<^verbatim>\<open>*\<close> of the filter is replaced by \<^verbatim>\<open>.*\<close> and the result is used as a regular
  expression, tested anywhere in the URL. For a non-empty filter \<open>p\<close> made of \<^verbatim>\<open>*\<close>,
  \<^verbatim>\<open>.\<close> and characters that stand for themselves in a regular expression, the pattern
  compiles, and it accepts a URL if and only if some part of the URL is \<open>p\<close> with every
  \<^verbatim>\<open>*\<close> replaced by a run of characters, \<^verbatim>\<open>/\<close> among them, and every \<^verbatim>\<open>.\<close> by one
  character, line breaks excluded in both (\<open>wild_somewhere\<close>). With such a URL filter
  alone, \<^verbatim>\<open>getRequests\<close> selects exactly the logged requests whose URL is accepted and
  \<^verbatim>\<open>getResponses\<close> exactly the logged responses whose URL is accepted, in log order.
  \<^verbatim>\<open>**\<close> accepts the same URLs as \<^verbatim>\<open>*\<close>, wherever it stands in such a filter, and a
  lone \<^verbatim>\<open>*\<close> stands for every run of characters without line breaks. Filters with other
  regular expression syntax are read by JavaScript's \<^verbatim>\<open>RegExp\<close> and are outside this
  statement, as are the patterns of \<^verbatim>\<open>route\<close>, \<^verbatim>\<open>waitForRequest\<close> and
  \<^verbatim>\<open>waitForResponse\<close>, which go to the driver unchanged.
\<close>

theorem url_filter_wildcards:
  assumes "wildcard_pattern p" and "p \<noteq> []"
  shows
    "(\<exists>t. url_pattern (RegExp_fragment rest) p = Some t \<and>
          (\<forall>url. t url \<longleftrightarrow> wild_somewhere p url)) \<and>
     selectRequests \<lparr>RegExp = RegExp_fragment rest, toUpperCase = up\<rparr>
         (Some \<lparr>rf_url = Some p, rf_method = None, rf_resourceType = None\<rparr>) log
       = Inr (filter (\<lambda>r. wild_somewhere p (req_url r)) (map fst log)) \<and>
     selectResponses \<lparr>RegExp = RegExp_fragment rest, toUpperCase = up\<rparr>
         (Some \<lparr>pf_url = Some p, pf_status = None, pf_statusRange = None\<rparr>) log
       = Inr (filter (\<lambda>r. wild_somewhere p (resp_url r)) (responses_of log)) \<and>
     (\<forall>a b. wildcard_pattern a \<and> wildcard_pattern b \<longrightarrow>
        (\<exists>t t'. url_pattern (RegExp_fragment rest) (a @ ''*'' @ b) = Some t \<and>
                url_pattern (RegExp_fragment rest) (a @ ''**'' @ b) = Some t' \<and>
                (\<forall>url. t' url \<longleftrightarrow> t url))) \<and>
     (\<forall>u. list_all no_break u \<longrightarrow> wild ''*'' u)"
proof -
  have "\<exists>t. url_pattern (RegExp_fragment rest) p = Some t \<and>
            (\<forall>url. t url \<longleftrightarrow> wild_somewhere p url)"
    by (simp add: url_pattern_wildcard [OF assms(1)] rx_test_wildcard)
  then show ?thesis
    using selectRequests_wildcard [OF assms, of rest up log]
      selectResponses_wildcard [OF assms, of rest up log]
      url_pattern_star_star [of _ _ rest] wild_star_any
    by blast
qed

theorem url_filter_wildcards_witness:
  "wildcard_pattern ''*/api/*'' \<and> ''*/api/*'' \<noteq> [] \<and>
   wild_somewhere ''*/api/*'' ''http://h/api/e1'' \<and>
   \<not> wild_somewhere ''*/api/*'' ''http://h/other/e'' \<and>
   selectRequests example_js
     (Some \<lparr>rf_url = Some ''*/api/*'', rf_method = None, rf_resourceType = None\<rparr>)
     [(example_request 1 ''http://h/api/e1'' ''GET'', None),
      (example_request 2 ''http://h/other/e'' ''POST'', None)]
   = Inr [example_request 1 ''http://h/api/e1'' ''GET''] \<and>
   wild ''*'' ''v1/users''"
proof -
  let ?rx = "[(AnyChar, Star), (Lit CHR ''/'', Once), (Lit CHR ''a'', Once), (Lit CHR ''p'', Once),
              (Lit CHR ''i'', Once), (Lit CHR ''/'', Once), (AnyChar, Star)]"
  let ?log = "[(example_request 1 ''http://h/api/e1'' ''GET'', None :: response option),
               (example_request 2 ''http://h/other/e'' ''POST'', None)]"
  have p: "wildcard_pattern ''*/api/*''"
    by (simp add: wildcard_pattern_def rx_plain_def rx_special_def)
  have n: "''*/api/*'' \<noteq> []" by simp
  note inst = url_filter_wildcards [OF p n, of "\<lambda>src. None" "map upper_char" ?log]
  have c: "url_pattern (RegExp_fragment (\<lambda>src. None)) ''*/api/*'' = Some (rx_test ?rx)"
    by (simp add: url_pattern_def replace_stars_def RegExp_fragment_def rx_parse_def
          rx_special_def rx_item_def)
  from inst c have w: "\<And>url. wild_somewhere ''*/api/*'' url \<longleftrightarrow> rx_test ?rx url"
    by simp
  have 1: "wild_somewhere ''*/api/*'' ''http://h/api/e1''"
    unfolding w by (simp add: no_break_def)
  have 2: "\<not> wild_somewhere ''*/api/*'' ''http://h/other/e''"
    unfolding w by (simp add: no_break_def)
  have 3: "selectRequests example_js
     (Some \<lparr>rf_url = Some ''*/api/*'', rf_method = None, rf_resourceType = None\<rparr>) ?log
   = Inr [example_request 1 ''http://h/api/e1'' ''GET'']"
    using inst 1 2 by (simp add: example_js_def example_request_def)
  have 4: "wild ''*'' ''v1/users''"
    using inst by (simp add: no_break_def)
  from p n 1 2 3 4 show ?thesis by simp
qed

subsection \<open>Web storage\<close>

lemma setItem_map_of: "map_of (setItem place k v s) = (map_of s)(k \<mapsto> v)"
proof (cases "k \<in> fst ` set s")
  case True
  then show ?thesis by (simp add: setItem_def update_conv')
next
  case False
  then have n: "map_of s k = None" by (simp add: map_of_eq_None_iff)
  have e: "map_of s = map_of (drop (place k s) s) ++ map_of (take (place k s) s)"
    using map_of_append [of "take (place k s) s" "drop (place k s) s"] by simp
  have "k \<notin> fst ` set (take (place k s) s)"
    using False by (auto dest: in_set_takeD)
  then have tk: "map_of (take (place k s) s) k = None" by (simp add: map_of_eq_None_iff)
  have "map_of (take (place k s) s @ (k, v) # drop (place k s) s) x = ((map_of s)(k \<mapsto> v)) x"
    for x
    using tk by (simp add: e map_add_def split: option.splits)
  then show ?thesis using False by (simp add: setItem_def fun_eq_iff)
qed

lemma fold_setItem_map_of:
  "map_of (fold (\<lambda>(key, v). setItem place key v) m s) = map_of s ++ map_of (rev m)"
proof (induction m arbitrary: s)
  case Nil
  show ?case by simp
next
  case (Cons kv m)
  obtain k v where kv: "kv = (k, v)" by (cases kv)
  show ?case
    by (rule ext) (simp add: kv Cons.IH setItem_map_of map_add_def split: option.splits)
qed

lemma map_of_rev_distinct:
  assumes "distinct (map fst m)"
  shows "map_of (rev m) = map_of m"
proof -
  have "distinct (map fst (rev m))" using assms by (simp add: rev_map [symmetric])
  then show ?thesis using assms by (simp add: map_of_inject_set)
qed

lemma getStorage_loop:
  "fold (getStorage_step s) [0..<length s] acc = fold (storage_entry s \<circ> fst) s acc"
proof -
  have "fold (getStorage_step s) [0..<length s] acc
          = fold ((storage_entry s \<circ> fst) \<circ> nth s) [0..<length s] acc"
    by (rule fold_cong) (simp_all add: getStorage_step_def storage_key_def fun_eq_iff)
  also have "\<dots> = fold (storage_entry s \<circ> fst) (map (nth s) [0..<length s]) acc"
    by (simp add: fold_map)
  finally show ?thesis by (simp add: map_nth)
qed

lemma storage_entry_map_of:
  "map_of (storage_entry s key acc) k
     = (if k = key \<and> k \<noteq> [] \<and> k \<noteq> ''__proto__'' \<and> map_of s k \<noteq> None
        then map_of s k else map_of acc k)"
  by (auto simp: storage_entry_def getItem_def assign_def update_conv' split: option.splits)

lemma fold_storage_entry:
  "map_of (fold (storage_entry s \<circ> fst) ks acc) k
     = (if k \<in> fst ` set ks \<and> k \<noteq> [] \<and> k \<noteq> ''__proto__'' \<and> map_of s k \<noteq> None
        then map_of s k else map_of acc k)"
proof (induction ks arbitrary: acc)
  case Nil
  show ?case by simp
next
  case (Cons e ks)
  have st: "fold (storage_entry s \<circ> fst) (e # ks) acc
          = fold (storage_entry s \<circ> fst) ks (storage_entry s (fst e) acc)"
    by simp
  show ?case unfolding st Cons.IH storage_entry_map_of by auto
qed

text \<open>
  What the round trip gives on the code, wherever the browser places new keys:
  \<^verbatim>\<open>getStorage\<close> after \<^verbatim>\<open>setStorage\<close> on an empty store returns the entries of the data
  whose key is neither the empty string nor \<^verbatim>\<open>__proto__\<close>; \<^verbatim>\<open>getStorage\<close> after
  \<^verbatim>\<open>clearStorage\<close> of the same store returns nothing.
\<close>

lemma getStorage_setStorage:
  assumes "distinct (map fst m)"
  shows "map_of (getStorage ty (setStorage place \<lparr>ss_type = ty, ss_data = m, ss_clear = c\<rparr>
                                  \<lparr>localStorage = [], sessionStorage = []\<rparr>)) k
           = (if k = [] \<or> k = ''__proto__'' then None else map_of m k)"
proof -
  let ?s = "storage_of ty (setStorage place \<lparr>ss_type = ty, ss_data = m, ss_clear = c\<rparr>
                             \<lparr>localStorage = [], sessionStorage = []\<rparr>)"
  have "?s = fold (\<lambda>(key, v). setItem place key v) m []"
    by (simp add: setStorage_def storage_of_def with_storage_def)
  then have s: "map_of ?s = map_of m"
    using fold_setItem_map_of [of place m "[]"] map_of_rev_distinct [OF assms] by simp
  have "k \<in> fst ` set ?s \<longleftrightarrow> map_of ?s k \<noteq> None"
    by (simp add: map_of_eq_None_iff)
  then show ?thesis
    unfolding getStorage_def Let_def getStorage_loop fold_storage_entry s by auto
qed

lemma getStorage_clearStorage:
  "getStorage ty (fst (clearStorage \<lparr>cs_type = Some (only ty), cs_keys = None\<rparr> page)) = []"
  by (cases ty) (simp_all add: getStorage_def clearStorage_def storage_of_def)

text \<open>
  C9. After \<^verbatim>\<open>setStorage(t, m)\<close> on an empty store, \<^verbatim>\<open>getStorage(t)\<close> should return
  exactly \<open>m\<close>. The code at the data \<^verbatim>\<open>{"": "1"}\<close>: the entry is stored under the empty
  key, and \<^verbatim>\<open>getStorage\<close> returns the empty mapping, because its \<^verbatim>\<open>if (key)\<close> drops the
  empty key.
\<close>

theorem getStorage_drops_empty_key:
  "storage_of local
     (setStorage place \<lparr>ss_type = local, ss_data = [('''', ''1'')], ss_clear = None\<rparr>
        \<lparr>localStorage = [], sessionStorage = []\<rparr>) = [('''', ''1'')] \<and>
   getStorage local
     (setStorage place \<lparr>ss_type = local, ss_data = [('''', ''1'')], ss_clear = None\<rparr>
        \<lparr>localStorage = [], sessionStorage = []\<rparr>) = []"
  by (simp add: getStorage_def setStorage_def storage_of_def with_storage_def truthy_bool_def
        setItem_def getStorage_step_def storage_key_def storage_entry_def)

subsection \<open>The frame context\<close>




subsection \<open>The active tool set\<close>

text \<open>
  C1. For every capability set and every list of registered tools, a tool is in the
  active set exactly when it is registered and its capability is in the capability set
  or is \<^verbatim>\<open>core\<close>; the active set is a subsequence of the registered list, so it keeps
  the registration order; and the names advertised to callers are the names of the
  active set, in that order.
\<close>

theorem buildActiveSet_exact:
  "(\<forall>t. t \<in> set (buildActiveSet C ts) \<longleftrightarrow>
         t \<in> set ts \<and> (tool_capability t \<in> C \<or> tool_capability t = ''core'')) \<and>
   subseq (buildActiveSet C ts) ts \<and>
   listTools C ts = map tool_name (buildActiveSet C ts)"
  by (auto simp: buildActiveSet_def listTools_def)

lemma buildActiveSet_example:
  "listTools {''core'', ''storage''} (networkInterception @ storage_tools @ frameManagement)
     = map tool_name storage_tools"
  by (simp add: listTools_def buildActiveSet_def networkInterception_def storage_tools_def
        frameManagement_def)

end
